theory Spec2Isabelle
  imports Complex_Main "HOL-Library.Sublist"
begin

section \<open>Values, exceptions and samples\<close>

text \<open>
  The two entry points of the repository, \<open>call_variants\<close> (call\_variants.py) and
  \<open>run_pipeline\<close> (pipeline.py), are sequences of calls to collaborators that live in other
  modules (\<open>reference\<close>, \<open>sample\<close>, \<open>variant_list\<close>, the tool wrappers, ...). The
  embedding keeps the sequence: every call to a collaborator is an \<open>event\<close> carrying the
  arguments the source passes, what the collaborator answers (a value or an exception, and
  its effect on the outside world) is a parameter, and the entry points are functions from
  the state of the outside world to a result, the list of events in program order and the
  new state.
\<close>

type_synonym path = string

text \<open>Python values the source only passes on (dictionaries of file names, fitted
  parameters, the variant list object).\<close>

datatype pyval =
    PyNone
  | PyInt int
  | PyFloat real
  | PyStr string
  | PyList "pyval list"
  | PyObj string

type_synonym pydict = "(string \<times> pyval) list"

datatype py_exn =
    SystemExit
  | NameError string
  | IndexError
  | KeyError string
  | TypeError
  | ValueError
  | Failure string

text \<open>The attributes of a \<open>Sample\<close> object that the two source files read or assign.
  \<open>sams\<close> holds the \<open>.name\<close> of each temporary file of \<open>_sams\<close>.\<close>

record sample =
  sample_name :: string
  fastqs :: "path list list"
  sams :: "path list"
  merged_bam :: path
  repeat_indel_header :: pyval
  repeat_indel_fits :: path
  strand_bias_std :: pyval
  repeat_indel_fits_dict :: pyval

datatype task_kind = ProcessSams | AnalyzeDepth | CharacterizeRepeats

text \<open>
  One constructor for each collaborator the source calls, with the arguments in the order
  of the call; the tool wrappers and fitting functions called inside the worker tasks are
  \<open>Tool\<close> with the dotted name of the source. A sample object passed as
  \<open>control_sample\<close> is a reference to an element of the sample list; the reference
  is its index. \<open>TaskDone\<close> and \<open>TaskRaised\<close> record that a task handed to
  \<open>pool.map\<close> returned or raised.
\<close>

datatype event =
    CheckReferenceIndices path
  | CreateReferenceIndices path
  | ReadChromSizesFromFile path
  | ReadChromSizes path
  | PathExists path
  | StderrWrite string
  | CreateRepeatFile path path
  | ReadRepeats path
  | ReadSamplesFromText path "path option"
  | GenerateExperimentDirectory path
  | WriteSampleInfoFile "sample list" path
  | GenerateIntermediateFiles sample
  | GetIntermediateFileNames sample
  | ClearTempFileIndices sample
  | VariantListNew path "sample list" "path option" path "nat option" pyval
  | WriteOutputTable pyval path
  | WriteOutputVcf pyval path
  | Bowtie2Align path path path "path option" int
  | RunHaplotypeCaller "path list" path path path int
  | ReadFits path
  | Tool string "pyval list"
  | TaskDone task_kind nat
  | TaskRaised task_kind nat py_exn

section \<open>The outside world\<close>

text \<open>
  The collaborators are not part of the two source files. Their behaviour is a parameter:
  for each call, the answer (an exception or a value of the type the source expects) and
  the new state of the outside world \<open>'s\<close> (the file system, the tools). \<open>schedule\<close> is
  the order in which the worker pool gets to the tasks of one \<open>pool.map\<close>.
\<close>

record 's env =
  answer_unit :: "event \<Rightarrow> 's \<Rightarrow> (py_exn + unit) \<times> 's"
  answer_bool :: "event \<Rightarrow> 's \<Rightarrow> (py_exn + bool) \<times> 's"
  answer_value :: "event \<Rightarrow> 's \<Rightarrow> (py_exn + pyval) \<times> 's"
  answer_pair :: "event \<Rightarrow> 's \<Rightarrow> (py_exn + pyval \<times> pyval) \<times> 's"
  answer_samples :: "event \<Rightarrow> 's \<Rightarrow> (py_exn + sample list) \<times> 's"
  answer_sample :: "event \<Rightarrow> 's \<Rightarrow> (py_exn + sample) \<times> 's"
  answer_files :: "event \<Rightarrow> 's \<Rightarrow> (py_exn + pydict) \<times> 's"
  schedule :: "task_kind \<Rightarrow> nat \<Rightarrow> nat list"

text \<open>A piece of program: from the state of the outside world to its result, the events
  it caused (in order) and the new state. An exception ends the piece where it is raised;
  the source has no \<open>try\<close>.\<close>

type_synonym ('s, 'a) io = "'s \<Rightarrow> (py_exn + 'a) \<times> event list \<times> 's"

definition io_ret :: "'a \<Rightarrow> ('s, 'a) io" where
  "io_ret a s = (Inr a, [], s)"

definition io_raise :: "py_exn \<Rightarrow> ('s, 'a) io" where
  "io_raise e s = (Inl e, [], s)"

definition io_lift :: "py_exn + 'a \<Rightarrow> ('s, 'a) io" where
  "io_lift r s = (r, [], s)"

definition io_bind :: "('s, 'a) io \<Rightarrow> ('a \<Rightarrow> ('s, 'b) io) \<Rightarrow> ('s, 'b) io" where
  "io_bind m f s =
     (case m s of
        (Inl e, evs, s1) \<Rightarrow> (Inl e, evs, s1)
      | (Inr a, evs, s1) \<Rightarrow> (case f a s1 of (r, evs2, s2) \<Rightarrow> (r, evs @ evs2, s2)))"

definition call :: "(event \<Rightarrow> 's \<Rightarrow> (py_exn + 'a) \<times> 's) \<Rightarrow> event \<Rightarrow> ('s, 'a) io" where
  "call answer ev s = (case answer ev s of (r, s1) \<Rightarrow> (r, [ev], s1))"

definition emit :: "event \<Rightarrow> ('s, unit) io" where
  "emit ev s = (Inr (), [ev], s)"

definition result_of :: "(py_exn + 'a) \<times> event list \<times> 's \<Rightarrow> py_exn + 'a" where
  "result_of x = fst x"

definition events_of :: "(py_exn + 'a) \<times> event list \<times> 's \<Rightarrow> event list" where
  "events_of x = fst (snd x)"

text \<open>\<open>for x in xs: body\<close> and a list comprehension \<open>[f(x) for x in xs]\<close> (also a loop
  that updates each object of a list in place).\<close>

fun for_each :: "('a \<Rightarrow> ('s, unit) io) \<Rightarrow> 'a list \<Rightarrow> ('s, unit) io" where
  "for_each body [] = io_ret ()"
| "for_each body (x # xs) = io_bind (body x) (\<lambda>_. for_each body xs)"

fun map_io :: "('a \<Rightarrow> ('s, 'b) io) \<Rightarrow> 'a list \<Rightarrow> ('s, 'b list) io" where
  "map_io f [] = io_ret []"
| "map_io f (x # xs) = io_bind (f x) (\<lambda>y. io_bind (map_io f xs) (\<lambda>ys. io_ret (y # ys)))"

section \<open>Library functions of Python the source uses\<close>

text \<open>\<open>str.rfind\<close> for one character: the index of its last occurrence, or -1.\<close>

definition rfind :: "char \<Rightarrow> string \<Rightarrow> int" where
  "rfind c p =
     (if c \<in> set p then int (length p) - 1 - int (length (takeWhile (\<lambda>x. x \<noteq> c) (rev p)))
      else - 1)"

text \<open>\<open>os.path.splitext\<close> (posixpath): the extension starts at the last dot after the
  last slash, unless only dots stand between that slash and the dot.\<close>

definition splitext :: "path \<Rightarrow> path \<times> string" where
  "splitext p =
     (let sepIndex = rfind CHR ''/'' p; dotIndex = rfind CHR ''.'' p
      in if dotIndex > sepIndex \<and>
            list_ex (\<lambda>x. x \<noteq> CHR ''.'') (drop (nat (sepIndex + 1)) (take (nat dotIndex) p))
         then (take (nat dotIndex) p, drop (nat dotIndex) p)
         else (p, []))"

text \<open>\<open>os.path.join(a, *p)\<close> (posixpath).\<close>

fun path_join :: "path \<Rightarrow> path list \<Rightarrow> path" where
  "path_join a [] = a"
| "path_join a (b # p) =
     path_join (if take 1 b = ''/'' then b
                else if a = [] \<or> last a = CHR ''/'' then a @ b
                else a @ ''/'' @ b) p"

text \<open>\<open>'{}.repeats'.format(os.path.splitext(reference_assembly)[0])\<close>\<close>

definition repeat_file_name :: "path \<Rightarrow> path" where
  "repeat_file_name reference_assembly = fst (splitext reference_assembly) @ ''.repeats''"

text \<open>\<open>next((x for x in samples if x.sample_name == control_sample), None)\<close>: a
  reference to the first sample of that name, or \<open>None\<close>.\<close>

fun find_control :: "string \<Rightarrow> sample list \<Rightarrow> nat option" where
  "find_control control_sample [] = None"
| "find_control control_sample (x # xs) =
     (if sample_name x = control_sample then Some 0
      else map_option Suc (find_control control_sample xs))"

section \<open>call\_variants.py\<close>

text \<open>
  \<open>call_variants(reference_assembly, control_sample, sample_list, input_vcf,
  output_header, chrom_sizes=None, excluded_regions=None)\<close>.

  Line 24 calls \<open>create_repeat_file\<close>, a name that call\_variants.py neither defines nor
  imports (its imports are \<open>os\<close>, \<open>argparse\<close>, \<open>tempfile\<close>, \<open>reference\<close>, \<open>sample\<close>,
  \<open>variant_list\<close> and \<open>read_from_distribution\<close>): evaluating the name raises
  \<open>NameError\<close>. \<open>if chrom_sizes:\<close> takes the else branch for \<open>None\<close> and for the empty
  string.
\<close>

definition call_variants ::
  "'s env \<Rightarrow> path \<Rightarrow> string \<Rightarrow> path \<Rightarrow> path \<Rightarrow> string \<Rightarrow> path option \<Rightarrow> path option
     \<Rightarrow> ('s, unit) io" where
  "call_variants env reference_assembly control_sample sample_list input_vcf output_header
       chrom_sizes excluded_regions =
     io_bind (call (answer_samples env) (ReadSamplesFromText sample_list None)) (\<lambda>samples.
     let control = find_control control_sample samples in
     io_bind (call (answer_unit env) (CreateReferenceIndices reference_assembly)) (\<lambda>_.
     let repeat_file = repeat_file_name reference_assembly in
     io_bind (call (answer_bool env) (PathExists repeat_file)) (\<lambda>found.
     io_bind (if \<not> found then io_raise (NameError ''create_repeat_file'') else io_ret ()) (\<lambda>_.
     io_bind (case chrom_sizes of
                Some f \<Rightarrow>
                  if f \<noteq> [] then call (answer_value env) (ReadChromSizesFromFile f)
                  else call (answer_value env) (ReadChromSizes reference_assembly)
              | None \<Rightarrow> call (answer_value env) (ReadChromSizes reference_assembly))
       (\<lambda>sizes.
     io_bind (call (answer_value env)
                (VariantListNew input_vcf samples excluded_regions repeat_file control sizes))
       (\<lambda>variants.
     let text_output = output_header @ ''.variants.txt'';
         vcf_output = output_header @ ''.variants.vcf'' in
     io_bind (call (answer_unit env) (WriteOutputTable variants text_output)) (\<lambda>_.
     call (answer_unit env) (WriteOutputVcf variants vcf_output))))))))"

section \<open>pipeline.py: the worker tasks\<close>

text \<open>\<open>d[key]\<close>, \<open>v[i]\<close> for an index from \<open>range\<close>, \<open>len(v)\<close> and \<open>d[key][i]\<close>
  on the dictionary returned by \<open>get_intermediate_file_names()\<close>.\<close>

definition item :: "pydict \<Rightarrow> string \<Rightarrow> py_exn + pyval" where
  "item d key = (case map_of d key of None \<Rightarrow> Inl (KeyError key) | Some v \<Rightarrow> Inr v)"

fun py_index :: "pyval \<Rightarrow> nat \<Rightarrow> py_exn + pyval" where
  "py_index (PyList vs) i = (if i < length vs then Inr (vs ! i) else Inl IndexError)"
| "py_index (PyStr cs) i = (if i < length cs then Inr (PyStr [cs ! i]) else Inl IndexError)"
| "py_index v i = Inl TypeError"

fun py_len :: "pyval \<Rightarrow> py_exn + nat" where
  "py_len (PyList vs) = Inr (length vs)"
| "py_len (PyStr cs) = Inr (length cs)"
| "py_len v = Inl TypeError"

definition item_at :: "pydict \<Rightarrow> string \<Rightarrow> nat \<Rightarrow> py_exn + pyval" where
  "item_at d key i = (case item d key of Inl e \<Rightarrow> Inl e | Inr v \<Rightarrow> py_index v i)"

text \<open>The arguments of a call are evaluated from left to right; the first one that raises
  ends the call before the collaborator is entered.\<close>

fun eval_args :: "(py_exn + pyval) list \<Rightarrow> py_exn + pyval list" where
  "eval_args [] = Inr []"
| "eval_args (Inl e # args) = Inl e"
| "eval_args (Inr v # args) = (case eval_args args of Inl e \<Rightarrow> Inl e | Inr vs \<Rightarrow> Inr (v # vs))"

definition tool :: "'s env \<Rightarrow> string \<Rightarrow> (py_exn + pyval) list \<Rightarrow> ('s, unit) io" where
  "tool env name args =
     io_bind (io_lift (eval_args args)) (\<lambda>vs. call (answer_unit env) (Tool name vs))"

definition tool_pair ::
  "'s env \<Rightarrow> string \<Rightarrow> (py_exn + pyval) list \<Rightarrow> ('s, pyval \<times> pyval) io" where
  "tool_pair env name args =
     io_bind (io_lift (eval_args args)) (\<lambda>vs. call (answer_pair env) (Tool name vs))"

text \<open>The body of the loop of \<open>process_sams\<close> (lines 35 to 68).\<close>

definition process_sam :: "'s env \<Rightarrow> string \<Rightarrow> pydict \<Rightarrow> path \<Rightarrow> nat \<Rightarrow> ('s, unit) io" where
  "process_sam env name intermediate_files reference_assembly i =
     io_bind (tool env ''read_processing.remove_diff_chr_pairs''
       [item_at intermediate_files ''_sams'' i,
        item_at intermediate_files ''_same_chr_sams'' i]) (\<lambda>_.
     io_bind (tool env ''samtools.mapq_filter''
       [item_at intermediate_files ''_same_chr_sams'' i,
        item_at intermediate_files ''_mapq_filtered_sams'' i]) (\<lambda>_.
     io_bind (tool env ''picard.add_read_groups''
       [item_at intermediate_files ''_mapq_filtered_sams'' i,
        item_at intermediate_files ''_read_group_bams'' i,
        Inr (PyStr name)]) (\<lambda>_.
     io_bind (tool env ''picard.deduplicate''
       [item_at intermediate_files ''_read_group_bams'' i,
        item_at intermediate_files ''_deduplicated_bams'' i,
        item_at intermediate_files ''_deduplication_metrics'' i]) (\<lambda>_.
     io_bind (tool env ''gatk.realigner_target_creator''
       [Inr (PyStr reference_assembly),
        item_at intermediate_files ''_deduplicated_bams'' i,
        item_at intermediate_files ''_interval_files'' i]) (\<lambda>_.
     io_bind (tool env ''gatk.indel_realigner''
       [Inr (PyStr reference_assembly),
        item_at intermediate_files ''realignment_logs'' i,
        item_at intermediate_files ''_deduplicated_bams'' i,
        item_at intermediate_files ''_interval_files'' i,
        item_at intermediate_files ''_realigned_bams'' i]) (\<lambda>_.
     tool env ''picard.fix_mate_information''
       [item_at intermediate_files ''_realigned_bams'' i,
        item_at intermediate_files ''_fixed_mates_bams'' i]))))))"

text \<open>\<open>process_sams(args)\<close> with \<open>args = (sample_name, intermediate_files,
  reference_assembly)\<close>; the sample name is \<open>name\<close> here, \<open>sample_name\<close> being the
  attribute.\<close>

definition process_sams :: "'s env \<Rightarrow> string \<times> pydict \<times> path \<Rightarrow> ('s, unit) io" where
  "process_sams env = (\<lambda>(name, intermediate_files, reference_assembly).
     io_bind (io_lift (case item intermediate_files ''_sams'' of
                         Inl e \<Rightarrow> Inl e | Inr v \<Rightarrow> py_len v)) (\<lambda>n.
     io_bind (for_each (process_sam env name intermediate_files reference_assembly)
                [0..<n]) (\<lambda>_.
     tool env ''samtools.merge_bams''
       [item intermediate_files ''_fixed_mates_bams'',
        item intermediate_files ''merged_bam''])))"

text \<open>\<open>characterize_repeat_indel_rates(args)\<close> with \<open>args = (intermediate_files, repeats,
  repeat_indel_header)\<close>.\<close>

definition characterize_repeat_indel_rates ::
  "'s env \<Rightarrow> pydict \<times> pyval \<times> pyval \<Rightarrow> ('s, unit) io" where
  "characterize_repeat_indel_rates env = (\<lambda>(intermediate_files, repeats, repeat_indel_header).
     tool env ''fit_repeat_indel_rates''
       [Inr repeats,
        item intermediate_files ''merged_bam'',
        item intermediate_files ''repeat_indel_fits'',
        Inr repeat_indel_header])"

text \<open>\<open>analyze_depth_distribution(args)\<close> with \<open>args = (index, intermediate_files,
  reference_assembly, chrom_sizes)\<close>; it returns \<open>index, strand_bias_std\<close>.\<close>

definition analyze_depth_distribution ::
  "'s env \<Rightarrow> nat \<times> pydict \<times> path \<times> pyval \<Rightarrow> ('s, nat \<times> pyval) io" where
  "analyze_depth_distribution env = (\<lambda>(index, intermediate_files, reference_assembly, chrom_sizes).
     io_bind (tool env ''samtools.run_mpileup''
       [item intermediate_files ''merged_bam'',
        Inr (PyStr reference_assembly),
        item intermediate_files ''_mpileup_out'']) (\<lambda>_.
     io_bind (tool_pair env ''bias_dist.calculate_bias_distribution_mpileup''
       [item intermediate_files ''_mpileup_out'',
        Inr (PyStr reference_assembly),
        item intermediate_files ''strand_bias_distribution'']) (\<lambda>(_, strand_bias_std).
     io_bind (tool env ''samtools.get_mpileup_depths''
       [item intermediate_files ''merged_bam'',
        Inr (PyStr reference_assembly),
        item intermediate_files ''depth_bedgraph'']) (\<lambda>_.
     io_bind (tool_pair env ''depth_dist.calculate_depth_distribution_mpileup''
       [item intermediate_files ''_mpileup_out'',
        item intermediate_files ''depth_distribution'']) (\<lambda>(mu, sigma).
     io_bind (tool env ''depth_dist.filter_regions_by_depth_mpileup''
       [item intermediate_files ''_mpileup_out'',
        Inr chrom_sizes,
        Inr mu,
        Inr sigma,
        item intermediate_files ''filtered_sites'']) (\<lambda>_.
     io_ret (index, strand_bias_std)))))))"

section \<open>pipeline.py: the worker pool\<close>

text \<open>
  \<open>Pool(p)\<close> refuses fewer than one process. \<open>pool.map(func, iterable)\<close> hands one task
  per element to the worker processes, blocks until all of them are done, and returns their
  results in the order of the iterable; when a task raises, \<open>pool.map\<close> raises that
  exception in the caller. The order in which the workers get to the tasks is not fixed:
  it is \<open>schedule\<close>, completed to a permutation of the task indices. The model runs the
  tasks one at a time in that order, each to its end; it does not interleave the steps of
  two tasks.
\<close>

definition pool_new :: "int \<Rightarrow> ('s, unit) io" where
  "pool_new p = (if p < 1 then io_raise ValueError else io_ret ())"

definition task_order :: "nat list \<Rightarrow> nat \<Rightarrow> nat list" where
  "task_order sched n =
     remdups (filter (\<lambda>i. i < n) sched) @ filter (\<lambda>i. i \<notin> set sched) [0..<n]"

definition watched :: "task_kind \<Rightarrow> nat \<Rightarrow> ('s, 'b) io \<Rightarrow> ('s, 'b) io" where
  "watched kind i task s =
     (case task s of
        (Inl e, evs, s1) \<Rightarrow> (Inl e, evs @ [TaskRaised kind i e], s1)
      | (Inr b, evs, s1) \<Rightarrow> (Inr b, evs @ [TaskDone kind i], s1))"

fun run_tasks ::
  "task_kind \<Rightarrow> (nat \<Rightarrow> ('s, 'b) io) \<Rightarrow> nat list \<Rightarrow> ('s, (nat \<times> 'b) list) io" where
  "run_tasks kind task [] = io_ret []"
| "run_tasks kind task (i # rest) =
     io_bind (watched kind i (task i)) (\<lambda>b.
     io_bind (run_tasks kind task rest) (\<lambda>bs.
     io_ret ((i, b) # bs)))"

definition pool_map ::
  "'s env \<Rightarrow> task_kind \<Rightarrow> ('a \<Rightarrow> ('s, 'b) io) \<Rightarrow> 'a list \<Rightarrow> ('s, 'b list) io" where
  "pool_map env kind func iterable =
     io_bind (run_tasks kind (\<lambda>i. func (iterable ! i))
                (task_order (schedule env kind (length iterable)) (length iterable))) (\<lambda>finished.
     io_ret (List.map_filter (map_of finished) [0..<length iterable]))"

section \<open>pipeline.py: run\_pipeline\<close>

text \<open>The body of the alignment loop (lines 164 to 170) for the group \<open>fastqs\<close> at position
  \<open>i\<close> of \<open>sample.fastqs\<close>.\<close>

definition align_fastqs ::
  "'s env \<Rightarrow> path \<Rightarrow> int \<Rightarrow> sample \<Rightarrow> nat \<times> path list \<Rightarrow> ('s, unit) io" where
  "align_fastqs env reference_assembly p sample = (\<lambda>(i, fastqs).
     io_bind (io_lift (if length fastqs = 2 then Inr (fastqs ! 0, Some (fastqs ! 1))
                       else if fastqs = [] then Inl IndexError
                       else Inr (fastqs ! 0, None))) (\<lambda>(f1, f2).
     io_bind (io_lift (if i < length (sams sample) then Inr (sams sample ! i)
                       else Inl IndexError)) (\<lambda>sam.
     call (answer_unit env) (Bowtie2Align f1 reference_assembly sam f2 p))))"

text \<open>\<open>for index, strand_bias_std in strand_bias_std_values:
  samples[index].strand_bias_std = strand_bias_std\<close>\<close>

fun assign_strand_bias :: "(nat \<times> pyval) list \<Rightarrow> sample list \<Rightarrow> py_exn + sample list" where
  "assign_strand_bias [] samples = Inr samples"
| "assign_strand_bias ((index, std) # rest) samples =
     (if index < length samples
      then assign_strand_bias rest
             (samples[index := (samples ! index)\<lparr>strand_bias_std := std\<rparr>])
      else Inl IndexError)"

definition not_indexed_message :: string where
  "not_indexed_message =
     ''Reference assembly not indexed. Run '' @ [CHR 0x22] @ ''muver index_reference''
       @ [CHR 0x22] @ ''.'' @ [CHR 0x0A]"

text \<open>
  \<open>run_pipeline(reference_assembly, fastq_list, control_sample, experiment_directory,
  p=1, excluded_regions=None)\<close>. The sample objects are updated in place by the source;
  here each loop over the samples returns the updated list.
\<close>

definition run_pipeline ::
  "'s env \<Rightarrow> path \<Rightarrow> path \<Rightarrow> string \<Rightarrow> path \<Rightarrow> int \<Rightarrow> path option \<Rightarrow> ('s, unit) io" where
  "run_pipeline env reference_assembly fastq_list control_sample experiment_directory p
       excluded_regions =
     io_bind (call (answer_bool env) (CheckReferenceIndices reference_assembly)) (\<lambda>indexed.
     io_bind (if \<not> indexed
              then io_bind (emit (StderrWrite not_indexed_message)) (\<lambda>_. io_raise SystemExit)
              else io_ret ()) (\<lambda>_.
     io_bind (pool_new p) (\<lambda>_.
     io_bind (call (answer_unit env) (GenerateExperimentDirectory experiment_directory)) (\<lambda>_.
     io_bind (call (answer_samples env)
                (ReadSamplesFromText fastq_list (Some experiment_directory))) (\<lambda>samples.
     let control = find_control control_sample samples in
     io_bind (map_io (\<lambda>sample. call (answer_sample env) (GenerateIntermediateFiles sample))
                samples) (\<lambda>samples.
     io_bind (for_each (\<lambda>sample.
                for_each (align_fastqs env reference_assembly p sample)
                  (enumerate 0 (fastqs sample))) samples) (\<lambda>_.
     io_bind (map_io (\<lambda>s. call (answer_files env) (GetIntermediateFileNames s)) samples)
       (\<lambda>names.
     io_bind (pool_map env ProcessSams (process_sams env)
                (map (\<lambda>(n, f). (n, f, reference_assembly))
                   (zip (map sample_name samples) names))) (\<lambda>_.
     let haplotype_caller_vcf = path_join experiment_directory
           [''gatk_output'', ''haplotype_caller_output.vcf''];
         haplotype_caller_log = path_join experiment_directory
           [''logs'', ''haplotype_caller.log''];
         bams = map merged_bam samples in
     io_bind (call (answer_unit env)
                (RunHaplotypeCaller bams reference_assembly haplotype_caller_vcf
                   haplotype_caller_log p)) (\<lambda>_.
     io_bind (call (answer_value env) (ReadChromSizes reference_assembly)) (\<lambda>chrom_sizes.
     io_bind (map_io (\<lambda>s. call (answer_files env) (GetIntermediateFileNames s)) samples)
       (\<lambda>names.
     io_bind (pool_map env AnalyzeDepth (analyze_depth_distribution env)
                (map (\<lambda>(i, f). (i, f, reference_assembly, chrom_sizes))
                   (zip [0..<length samples] names))) (\<lambda>strand_bias_std_values.
     io_bind (io_lift (assign_strand_bias strand_bias_std_values samples)) (\<lambda>samples.
     let repeat_file = repeat_file_name reference_assembly in
     io_bind (call (answer_value env) (ReadRepeats repeat_file)) (\<lambda>repeats.
     io_bind (map_io (\<lambda>s. call (answer_files env) (GetIntermediateFileNames s)) samples)
       (\<lambda>names.
     io_bind (pool_map env CharacterizeRepeats (characterize_repeat_indel_rates env)
                (map (\<lambda>(f, h). (f, repeats, h))
                   (zip names (map repeat_indel_header samples)))) (\<lambda>_.
     io_bind (map_io (\<lambda>sample.
                io_bind (call (answer_value env) (ReadFits (repeat_indel_fits sample)))
                  (\<lambda>fits. io_ret (sample\<lparr>repeat_indel_fits_dict := fits\<rparr>))) samples)
       (\<lambda>samples.
     io_bind (call (answer_value env)
                (VariantListNew haplotype_caller_vcf samples excluded_regions repeat_file
                   control chrom_sizes)) (\<lambda>variants.
     let text_output = path_join experiment_directory [''output'', ''mutations.txt''];
         vcf_output = path_join experiment_directory [''output'', ''mutations.vcf''] in
     io_bind (call (answer_unit env) (WriteOutputTable variants text_output)) (\<lambda>_.
     io_bind (call (answer_unit env) (WriteOutputVcf variants vcf_output)) (\<lambda>_.
     io_bind (map_io (\<lambda>sample. call (answer_sample env) (ClearTempFileIndices sample))
                samples) (\<lambda>samples.
     let sample_info_file = path_join experiment_directory [''sample_info.txt''] in
     call (answer_unit env) (WriteSampleInfoFile samples sample_info_file)
     ))))))))))))))))))))))"

section \<open>A small outside world to run the entry points in\<close>

text \<open>
  \<open>lab\<close> is one possible behaviour of the collaborators, used to run the entry points on
  concrete inputs. Its state lists the references that have indices, the files that exist
  and the tools that raise when called. The manifest names two samples, \<open>control\<close> with one
  pair of FASTQ files and \<open>mutant\<close> with one single file; the pool gets to the second task
  first.
\<close>

record disk =
  indexed_refs :: "path list"
  present :: "path list"
  failing :: "string list"

definition lab_sample :: "string \<Rightarrow> path list list \<Rightarrow> sample" where
  "lab_sample name groups =
     \<lparr>sample_name = name, fastqs = groups, sams = [], merged_bam = name @ ''.bam'',
      repeat_indel_header = PyStr name, repeat_indel_fits = name @ ''.fits'',
      strand_bias_std = PyNone, repeat_indel_fits_dict = PyNone\<rparr>"

definition lab_samples :: "sample list" where
  "lab_samples =
     [lab_sample ''control'' [[''control_1.fq'', ''control_2.fq'']],
      lab_sample ''mutant'' [[''mutant.fq'']]]"

definition lab_files :: "sample \<Rightarrow> pydict" where
  "lab_files sm =
     map (\<lambda>key. (key, PyList (map (\<lambda>f. PyStr (f @ ''.'' @ key)) (sams sm))))
       [''_sams'', ''_same_chr_sams'', ''_mapq_filtered_sams'', ''_read_group_bams'',
        ''_deduplicated_bams'', ''_deduplication_metrics'', ''_interval_files'',
        ''realignment_logs'', ''_realigned_bams'', ''_fixed_mates_bams'']
     @ map (\<lambda>key. (key, PyStr (sample_name sm @ ''.'' @ key)))
         [''merged_bam'', ''repeat_indel_fits'', ''_mpileup_out'', ''strand_bias_distribution'',
          ''depth_bedgraph'', ''depth_distribution'', ''filtered_sites'']"

definition lab :: "disk env" where
  "lab =
     \<lparr>answer_unit = (\<lambda>ev d. case ev of
          CreateReferenceIndices r \<Rightarrow> (Inr (), d\<lparr>indexed_refs := r # indexed_refs d\<rparr>)
        | Tool name args \<Rightarrow>
            (if name \<in> set (failing d) then Inl (Failure name) else Inr (), d)
        | _ \<Rightarrow> (Inr (), d)),
      answer_bool = (\<lambda>ev d. case ev of
          CheckReferenceIndices r \<Rightarrow> (Inr (r \<in> set (indexed_refs d)), d)
        | PathExists f \<Rightarrow> (Inr (f \<in> set (present d)), d)
        | _ \<Rightarrow> (Inr False, d)),
      answer_value = (\<lambda>ev d. case ev of
          ReadRepeats f \<Rightarrow>
            (if f \<in> set (present d) then Inr (PyObj ''repeats'') else Inl (Failure ''IOError''), d)
        | ReadChromSizes r \<Rightarrow> (Inr (PyObj ''sizes''), d)
        | ReadChromSizesFromFile f \<Rightarrow> (Inr (PyObj ''sizes''), d)
        | ReadFits f \<Rightarrow> (Inr (PyStr f), d)
        | VariantListNew v ss ex rf c cs \<Rightarrow> (Inr (PyObj ''variants''), d)
        | _ \<Rightarrow> (Inr PyNone, d)),
      answer_pair = (\<lambda>ev d. case ev of
          Tool name args \<Rightarrow>
            (if name \<in> set (failing d) then Inl (Failure name)
             else Inr (PyFloat 0, case args of PyStr f # _ \<Rightarrow> PyFloat (real (length f))
                                   | _ \<Rightarrow> PyNone), d)
        | _ \<Rightarrow> (Inr (PyNone, PyNone), d)),
      answer_samples = (\<lambda>ev d. (Inr lab_samples, d)),
      answer_sample = (\<lambda>ev d. case ev of
          GenerateIntermediateFiles sm \<Rightarrow>
            (Inr (sm\<lparr>sams := map (\<lambda>i. sample_name sm @ ''.sam'') (fastqs sm)\<rparr>), d)
        | ClearTempFileIndices sm \<Rightarrow> (Inr sm, d)
        | _ \<Rightarrow> (Inl TypeError, d)),
      answer_files = (\<lambda>ev d. case ev of
          GetIntermediateFileNames sm \<Rightarrow> (Inr (lab_files sm), d)
        | _ \<Rightarrow> (Inl TypeError, d)),
      schedule = (\<lambda>kind n. [1, 0])\<rparr>"

section \<open>The two parts of run\_pipeline\<close>

text \<open>
  For the proofs, \<open>run_pipeline\<close> is cut in two where the variant list is constructed:
  \<open>characterize\<close> is lines 143 to 221 and returns the local variables the rest reads,
  \<open>aggregate\<close> is lines 223 to 245. Lemma \<open>run_pipeline_split\<close> proves that
  \<open>run_pipeline\<close> is the first followed by the second.
\<close>

definition characterize ::
  "'s env \<Rightarrow> path \<Rightarrow> path \<Rightarrow> string \<Rightarrow> path \<Rightarrow> int
     \<Rightarrow> ('s, sample list \<times> nat option \<times> path \<times> pyval \<times> path) io" where
  "characterize env reference_assembly fastq_list control_sample experiment_directory p =
     io_bind (call (answer_bool env) (CheckReferenceIndices reference_assembly)) (\<lambda>indexed.
     io_bind (if \<not> indexed
              then io_bind (emit (StderrWrite not_indexed_message)) (\<lambda>_. io_raise SystemExit)
              else io_ret ()) (\<lambda>_.
     io_bind (pool_new p) (\<lambda>_.
     io_bind (call (answer_unit env) (GenerateExperimentDirectory experiment_directory)) (\<lambda>_.
     io_bind (call (answer_samples env)
                (ReadSamplesFromText fastq_list (Some experiment_directory))) (\<lambda>samples.
     let control = find_control control_sample samples in
     io_bind (map_io (\<lambda>sample. call (answer_sample env) (GenerateIntermediateFiles sample))
                samples) (\<lambda>samples.
     io_bind (for_each (\<lambda>sample.
                for_each (align_fastqs env reference_assembly p sample)
                  (enumerate 0 (fastqs sample))) samples) (\<lambda>_.
     io_bind (map_io (\<lambda>s. call (answer_files env) (GetIntermediateFileNames s)) samples)
       (\<lambda>names.
     io_bind (pool_map env ProcessSams (process_sams env)
                (map (\<lambda>(n, f). (n, f, reference_assembly))
                   (zip (map sample_name samples) names))) (\<lambda>_.
     let haplotype_caller_vcf = path_join experiment_directory
           [''gatk_output'', ''haplotype_caller_output.vcf''];
         haplotype_caller_log = path_join experiment_directory
           [''logs'', ''haplotype_caller.log''];
         bams = map merged_bam samples in
     io_bind (call (answer_unit env)
                (RunHaplotypeCaller bams reference_assembly haplotype_caller_vcf
                   haplotype_caller_log p)) (\<lambda>_.
     io_bind (call (answer_value env) (ReadChromSizes reference_assembly)) (\<lambda>chrom_sizes.
     io_bind (map_io (\<lambda>s. call (answer_files env) (GetIntermediateFileNames s)) samples)
       (\<lambda>names.
     io_bind (pool_map env AnalyzeDepth (analyze_depth_distribution env)
                (map (\<lambda>(i, f). (i, f, reference_assembly, chrom_sizes))
                   (zip [0..<length samples] names))) (\<lambda>strand_bias_std_values.
     io_bind (io_lift (assign_strand_bias strand_bias_std_values samples)) (\<lambda>samples.
     let repeat_file = repeat_file_name reference_assembly in
     io_bind (call (answer_value env) (ReadRepeats repeat_file)) (\<lambda>repeats.
     io_bind (map_io (\<lambda>s. call (answer_files env) (GetIntermediateFileNames s)) samples)
       (\<lambda>names.
     io_bind (pool_map env CharacterizeRepeats (characterize_repeat_indel_rates env)
                (map (\<lambda>(f, h). (f, repeats, h))
                   (zip names (map repeat_indel_header samples)))) (\<lambda>_.
     io_bind (map_io (\<lambda>sample.
                io_bind (call (answer_value env) (ReadFits (repeat_indel_fits sample)))
                  (\<lambda>fits. io_ret (sample\<lparr>repeat_indel_fits_dict := fits\<rparr>))) samples)
       (\<lambda>samples.
     io_ret (samples, control, haplotype_caller_vcf, chrom_sizes, repeat_file)
     ))))))))))))))))))"

definition aggregate ::
  "'s env \<Rightarrow> path \<Rightarrow> path option \<Rightarrow> sample list \<times> nat option \<times> path \<times> pyval \<times> path
     \<Rightarrow> ('s, unit) io" where
  "aggregate env experiment_directory excluded_regions =
     (\<lambda>(samples, control, haplotype_caller_vcf, chrom_sizes, repeat_file).
     io_bind (call (answer_value env)
                (VariantListNew haplotype_caller_vcf samples excluded_regions repeat_file
                   control chrom_sizes)) (\<lambda>variants.
     let text_output = path_join experiment_directory [''output'', ''mutations.txt''];
         vcf_output = path_join experiment_directory [''output'', ''mutations.vcf''] in
     io_bind (call (answer_unit env) (WriteOutputTable variants text_output)) (\<lambda>_.
     io_bind (call (answer_unit env) (WriteOutputVcf variants vcf_output)) (\<lambda>_.
     io_bind (map_io (\<lambda>sample. call (answer_sample env) (ClearTempFileIndices sample))
                samples) (\<lambda>samples.
     let sample_info_file = path_join experiment_directory [''sample_info.txt''] in
     call (answer_unit env) (WriteSampleInfoFile samples sample_info_file))))))"


section \<open>Kinds of events\<close>


definition is_aggregation :: "event \<Rightarrow> bool" where
  "is_aggregation ev =
     (case ev of VariantListNew _ _ _ _ _ _ \<Rightarrow> True | WriteOutputTable _ _ \<Rightarrow> True
      | WriteOutputVcf _ _ \<Rightarrow> True | ClearTempFileIndices _ \<Rightarrow> True
      | WriteSampleInfoFile _ _ \<Rightarrow> True | _ \<Rightarrow> False)"


definition emits :: "(event \<Rightarrow> bool) \<Rightarrow> ('s, 'a) io \<Rightarrow> bool" where
  "emits P m \<longleftrightarrow> (\<forall>s. \<forall>ev \<in> set (events_of (m s)). P ev)"



definition is_variant_list :: "event \<Rightarrow> bool" where
  "is_variant_list ev = (case ev of VariantListNew _ _ _ _ _ _ \<Rightarrow> True | _ \<Rightarrow> False)"

definition is_align :: "event \<Rightarrow> bool" where
  "is_align ev = (case ev of Bowtie2Align _ _ _ _ _ \<Rightarrow> True | _ \<Rightarrow> False)"

definition is_chrom_read :: "event \<Rightarrow> bool" where
  "is_chrom_read ev =
     (case ev of ReadChromSizesFromFile _ \<Rightarrow> True | ReadChromSizes _ \<Rightarrow> True | _ \<Rightarrow> False)"

definition is_variant_write :: "event \<Rightarrow> bool" where
  "is_variant_write ev =
     (case ev of WriteOutputTable _ _ \<Rightarrow> True | WriteOutputVcf _ _ \<Rightarrow> True | _ \<Rightarrow> False)"

definition is_index_check :: "event \<Rightarrow> bool" where
  "is_index_check ev =
     (case ev of CheckReferenceIndices _ \<Rightarrow> True | StderrWrite _ \<Rightarrow> True | _ \<Rightarrow> False)"

definition is_repeat_check :: "event \<Rightarrow> bool" where
  "is_repeat_check ev =
     (case ev of PathExists _ \<Rightarrow> True | CreateRepeatFile _ _ \<Rightarrow> True | _ \<Rightarrow> False)"

definition state_of :: "(py_exn + 'a) \<times> event list \<times> 's \<Rightarrow> 's" where
  "state_of x = snd (snd x)"

text \<open>The call that gives \<open>call_variants\<close> the chromosome sizes (lines 26 to 29).\<close>

definition chrom_sizes_source :: "path \<Rightarrow> path option \<Rightarrow> event" where
  "chrom_sizes_source reference_assembly chrom_sizes =
     (case chrom_sizes of
        Some f \<Rightarrow> if f \<noteq> [] then ReadChromSizesFromFile f else ReadChromSizes reference_assembly
      | None \<Rightarrow> ReadChromSizes reference_assembly)"

text \<open>Two pieces of program that agree on the result, on the new state of the outside
  world and on the events of one kind.\<close>

definition similar :: "(event \<Rightarrow> bool) \<Rightarrow> ('s, 'a) io \<Rightarrow> ('s, 'a) io \<Rightarrow> bool" where
  "similar P m1 m2 \<longleftrightarrow>
     (\<forall>s. result_of (m1 s) = result_of (m2 s) \<and> state_of (m1 s) = state_of (m2 s)
          \<and> filter P (events_of (m1 s)) = filter P (events_of (m2 s)))"

section \<open>The alignment a FASTQ group calls for\<close>

text \<open>
  What claim C10 expects of the alignment loop, in its own words: a group of two files is
  aligned as a read pair, the second file being the mate; a group of one file is aligned
  single-end, with no mate. (A longer group: its first file, single-end, which is what the
  else branch of the source does.) An empty group, or a group with no SAM file of its
  position, calls for no alignment.
\<close>

fun mate_of :: "path list \<Rightarrow> (path \<times> path option) option" where
  "mate_of [] = None"
| "mate_of [f1, f2] = Some (f1, Some f2)"
| "mate_of (f1 # rest) = Some (f1, None)"

definition alignment_of :: "path \<Rightarrow> int \<Rightarrow> path list \<Rightarrow> nat \<times> path list \<Rightarrow> event option" where
  "alignment_of reference_assembly p sam_names = (\<lambda>(i, group).
     case mate_of group of
       None \<Rightarrow> None
     | Some (f1, f2) \<Rightarrow>
         if i < length sam_names
         then Some (Bowtie2Align f1 reference_assembly (sam_names ! i) f2 p)
         else None)"

section \<open>States of the small outside world\<close>

definition disk_ready :: disk where
  "disk_ready =
     \<lparr>indexed_refs = [''ref/genome.fa''], present = [''ref/genome.repeats''], failing = []\<rparr>"

definition disk_no_repeats :: disk where
  "disk_no_repeats = \<lparr>indexed_refs = [''ref/genome.fa''], present = [], failing = []\<rparr>"

definition disk_unindexed :: disk where
  "disk_unindexed = \<lparr>indexed_refs = [], present = [''ref/genome.repeats''], failing = []\<rparr>"


text \<open>The samples of the manifest of \<open>lab\<close> once they are characterized.\<close>

definition lab_characterized :: "sample list" where
  "lab_characterized =
     [(lab_sample ''control'' [[''control_1.fq'', ''control_2.fq'']])
        \<lparr>sams := [''control.sam''], strand_bias_std := PyFloat 20,
         repeat_indel_fits_dict := PyStr ''control.fits''\<rparr>,
      (lab_sample ''mutant'' [[''mutant.fq'']])
        \<lparr>sams := [''mutant.sam''], strand_bias_std := PyFloat 19,
         repeat_indel_fits_dict := PyStr ''mutant.fits''\<rparr>]"

section \<open>Reasoning about pieces of program\<close>

lemma io_ret_eq [simp]: "io_ret a s = (r, evs, s') \<longleftrightarrow> r = Inr a \<and> evs = [] \<and> s' = s"
  by (auto simp: io_ret_def)
lemma io_raise_eq [simp]: "io_raise e s = (r, evs, s') \<longleftrightarrow> r = Inl e \<and> evs = [] \<and> s' = s"
  by (auto simp: io_raise_def)
lemma io_lift_eq [simp]: "io_lift x s = (r, evs, s') \<longleftrightarrow> r = x \<and> evs = [] \<and> s' = s"
  by (auto simp: io_lift_def)
lemma emit_eq [simp]: "emit ev s = (r, evs, s') \<longleftrightarrow> r = Inr () \<and> evs = [ev] \<and> s' = s"
  by (auto simp: emit_def)
lemma call_eq [simp]: "call ans ev s = (r, evs, s') \<longleftrightarrow> evs = [ev] \<and> ans ev s = (r, s')"
  by (auto simp: call_def split: prod.splits)

lemma run_cases: obtains r evs s' where "m s = (r, evs, s')"
  by (cases "m s") auto

lemma result_of_eq [simp]: "result_of (r, evs, s') = r" by (simp add: result_of_def)
lemma events_of_eq [simp]: "events_of (r, evs, s') = evs" by (simp add: events_of_def)

lemma io_bindE:
  assumes "io_bind m f s = (r, evs, s')"
  obtains (raised) e where "m s = (Inl e, evs, s')" "r = Inl e"
    | (went_on) a evs1 s1 evs2 where "m s = (Inr a, evs1, s1)" "f a s1 = (r, evs2, s')" "evs = evs1 @ evs2"
  using assms by (auto simp: io_bind_def split: prod.splits sum.splits)

lemma io_bind_InrE:
  assumes "io_bind m f s = (Inr b, evs, s')"
  obtains a evs1 s1 evs2 where "m s = (Inr a, evs1, s1)" "f a s1 = (Inr b, evs2, s')" "evs = evs1 @ evs2"
  using assms by (auto simp: io_bind_def split: prod.splits sum.splits)

lemma io_bind_raised: "m s = (Inl e, evs, s') \<Longrightarrow> io_bind m f s = (Inl e, evs, s')"
  by (simp add: io_bind_def)

lemma io_bind_went_on:
  "m s = (Inr a, evs1, s1) \<Longrightarrow> f a s1 = (r, evs2, s') \<Longrightarrow> io_bind m f s = (r, evs1 @ evs2, s')"
  by (simp add: io_bind_def)

subsection \<open>emits\<close>

lemma emitsI: "(\<And>s r evs s' ev. m s = (r, evs, s') \<Longrightarrow> ev \<in> set evs \<Longrightarrow> P ev) \<Longrightarrow> emits P m"
  unfolding emits_def by (metis events_of_eq run_cases)

lemma emitsD: "emits P m \<Longrightarrow> m s = (r, evs, s') \<Longrightarrow> ev \<in> set evs \<Longrightarrow> P ev"
  unfolding emits_def by (metis events_of_eq)

lemma emits_ret: "emits P (io_ret a)" by (rule emitsI) simp
lemma emits_raise: "emits P (io_raise e)" by (rule emitsI) simp
lemma emits_lift: "emits P (io_lift x)" by (rule emitsI) simp
lemma emits_emit: "P ev \<Longrightarrow> emits P (emit ev)" by (rule emitsI) simp
lemma emits_call: "P ev \<Longrightarrow> emits P (call ans ev)" by (rule emitsI) simp

lemma emits_bind:
  assumes "emits P m" "\<And>a. emits P (f a)"
  shows "emits P (io_bind m f)"
proof (rule emitsI)
  fix s r evs s' ev
  assume run: "io_bind m f s = (r, evs, s')" and ev: "ev \<in> set evs"
  from run show "P ev"
  proof (cases rule: io_bindE)
    case (raised e)
    with assms(1) ev show ?thesis by (blast dest: emitsD)
  next
    case (went_on a evs1 s1 evs2)
    with assms ev show ?thesis by (auto dest: emitsD)
  qed
qed

lemma emits_if: "emits P a \<Longrightarrow> emits P b \<Longrightarrow> emits P (if c then a else b)"
  by simp

lemma emits_prod: "(\<And>a b. emits P (f a b)) \<Longrightarrow> emits P (case_prod f x)"
  by (cases x) simp

lemma emits_option: "emits P a \<Longrightarrow> (\<And>x. emits P (f x)) \<Longrightarrow> emits P (case_option a f x)"
  by (cases x) simp_all

lemma emits_for_each: "(\<And>x. emits P (body x)) \<Longrightarrow> emits P (for_each body xs)"
  by (induction xs) (auto intro: emits_ret emits_bind)

lemma emits_map_io: "(\<And>x. emits P (f x)) \<Longrightarrow> emits P (map_io f xs)"
  by (induction xs) (auto intro: emits_ret emits_bind)

lemma emits_tool: "(\<And>vs. P (Tool name vs)) \<Longrightarrow> emits P (tool env name args)"
  unfolding tool_def by (intro emits_bind emits_lift emits_call)

lemma emits_tool_pair: "(\<And>vs. P (Tool name vs)) \<Longrightarrow> emits P (tool_pair env name args)"
  unfolding tool_pair_def by (intro emits_bind emits_lift emits_call)

lemma emits_watched:
  assumes "emits P task" "\<And>e. P (TaskRaised kind i e)" "P (TaskDone kind i)"
  shows "emits P (watched kind i task)"
proof (rule emitsI)
  fix s r evs s' ev
  assume run: "watched kind i task s = (r, evs, s')" and ev: "ev \<in> set evs"
  obtain r0 evs0 s0 where t: "task s = (r0, evs0, s0)" by (rule run_cases)
  with run ev assms show "P ev"
    by (cases r0) (auto simp: watched_def dest: emitsD)
qed

lemma emits_run_tasks:
  assumes "\<And>i. emits P (task i)" "\<And>i e. P (TaskRaised kind i e)" "\<And>i. P (TaskDone kind i)"
  shows "emits P (run_tasks kind task order)"
  by (induction order) (auto intro!: emits_ret emits_bind emits_watched assms)

lemma emits_pool_map:
  assumes "\<And>x. emits P (func x)" "\<And>i e. P (TaskRaised kind i e)" "\<And>i. P (TaskDone kind i)"
  shows "emits P (pool_map env kind func iterable)"
  unfolding pool_map_def by (intro emits_bind emits_ret emits_run_tasks assms)

lemma emits_process_sam:
  "(\<And>name vs. P (Tool name vs)) \<Longrightarrow> emits P (process_sam env n files ref i)"
  unfolding process_sam_def by (intro emits_bind emits_tool)

lemma emits_process_sams:
  "(\<And>name vs. P (Tool name vs)) \<Longrightarrow> emits P (process_sams env x)"
  unfolding process_sams_def
  by (intro emits_prod emits_bind emits_lift emits_for_each emits_process_sam emits_tool)

lemma emits_characterize_repeat_indel_rates:
  "(\<And>name vs. P (Tool name vs)) \<Longrightarrow> emits P (characterize_repeat_indel_rates env x)"
  unfolding characterize_repeat_indel_rates_def by (intro emits_prod emits_tool)

lemma emits_analyze_depth_distribution:
  "(\<And>name vs. P (Tool name vs)) \<Longrightarrow> emits P (analyze_depth_distribution env x)"
  unfolding analyze_depth_distribution_def
  by (intro emits_prod emits_bind emits_tool emits_tool_pair emits_ret)

lemma emits_align_fastqs:
  "(\<And>f1 sam f2. P (Bowtie2Align f1 ref sam f2 p)) \<Longrightarrow> emits P (align_fastqs env ref p sm x)"
  unfolding align_fastqs_def
  by (intro emits_prod emits_bind emits_lift emits_call)

lemma emits_pool_new: "emits P (pool_new p)"
  unfolding pool_new_def by (intro emits_if emits_raise emits_ret)

lemmas emits_intros =
  emits_bind emits_ret emits_raise emits_lift emits_emit emits_call emits_if emits_prod
  emits_option emits_for_each emits_map_io emits_pool_map emits_pool_new
  emits_process_sams emits_characterize_repeat_indel_rates emits_analyze_depth_distribution
  emits_align_fastqs

lemma emits_characterize:
  "emits (\<lambda>ev. \<not> is_aggregation ev) (characterize env ref fl c dir p)"
  unfolding characterize_def Let_def
  by (intro emits_intros) (simp_all add: is_aggregation_def)

lemma io_bind_assoc: "io_bind (io_bind m f) g = io_bind m (\<lambda>x. io_bind (f x) g)"
  by (rule ext) (auto simp: io_bind_def split: prod.splits sum.splits)

lemma io_ret_bind: "io_bind (io_ret a) f = f a"
  by (rule ext) (auto simp: io_bind_def io_ret_def split: prod.splits sum.splits)

lemma run_pipeline_split:
  "run_pipeline env reference_assembly fastq_list control_sample experiment_directory p excluded_regions =
     io_bind (characterize env reference_assembly fastq_list control_sample experiment_directory p)
       (aggregate env experiment_directory excluded_regions)"
  unfolding run_pipeline_def characterize_def aggregate_def Let_def
  by (simp add: io_bind_assoc io_ret_bind)











subsection \<open>What a completed pool.map tells\<close>

lemma watched_InrE:
  assumes "watched kind i task s = (Inr b, evs, s')"
  obtains evs0 where "task s = (Inr b, evs0, s')" "evs = evs0 @ [TaskDone kind i]"
  using assms by (auto simp: watched_def split: prod.splits sum.splits)

lemma run_tasks_ok:
  assumes "run_tasks kind task order s = (Inr finished, evs, s')"
  shows "map fst finished = order
         \<and> (\<forall>(i, b) \<in> set finished.
               TaskDone kind i \<in> set evs \<and> (\<exists>s1 evs1 s2. task i s1 = (Inr b, evs1, s2)))"
  using assms
proof (induction order arbitrary: s finished evs)
  case Nil
  then show ?case by simp
next
  case (Cons i order)
  from Cons.prems obtain b evs1 s1 bs evs2 where
    w: "watched kind i (task i) s = (Inr b, evs1, s1)" and
    rest: "run_tasks kind task order s1 = (Inr bs, evs2, s')" and
    fin: "finished = (i, b) # bs" and evs: "evs = evs1 @ evs2"
    by (auto elim!: io_bind_InrE)
  from w obtain evs0 where t: "task i s = (Inr b, evs0, s1)" and e1: "evs1 = evs0 @ [TaskDone kind i]"
    by (rule watched_InrE)
  from Cons.IH [OF rest] have ih: "map fst bs = order"
    "\<forall>(j, b) \<in> set bs. TaskDone kind j \<in> set evs2 \<and> (\<exists>s1 evs1 s2. task j s1 = (Inr b, evs1, s2))"
    by simp_all
  show ?case
    using ih t e1 fin evs by (auto simp: case_prod_unfold)
qed

lemma set_task_order: "set (task_order sched n) = {..<n}"
  by (auto simp: task_order_def)

lemma map_filter_all_Some:
  assumes "\<forall>x \<in> set xs. g x \<noteq> None"
  shows "List.map_filter g xs = map (\<lambda>x. the (g x)) xs"
  using assms by (induction xs) (auto split: option.splits)

lemma pool_map_ok:
  assumes "pool_map env kind func xs s = (Inr rs, evs, s')"
  shows "length rs = length xs
         \<and> (\<forall>i < length xs. TaskDone kind i \<in> set evs
               \<and> (\<exists>s1 evs1 s2. func (xs ! i) s1 = (Inr (rs ! i), evs1, s2)))"
proof -
  let ?n = "length xs"
  let ?order = "task_order (schedule env kind ?n) ?n"
  from assms obtain finished where
    run: "run_tasks kind (\<lambda>i. func (xs ! i)) ?order s = (Inr finished, evs, s')" and
    rs: "rs = List.map_filter (map_of finished) [0..<?n]"
    unfolding pool_map_def by (auto elim!: io_bind_InrE)
  from run_tasks_ok [OF run] have
    order: "map fst finished = ?order" and
    each: "\<forall>(i, b) \<in> set finished.
             TaskDone kind i \<in> set evs \<and> (\<exists>s1 evs1 s2. func (xs ! i) s1 = (Inr b, evs1, s2))"
    by simp_all
  have dom: "map_of finished i \<noteq> None" if "i < ?n" for i
  proof -
    from that have "i \<in> set ?order" by (simp add: set_task_order)
    with order have "i \<in> fst ` set finished" by (metis set_map)
    then show ?thesis by (simp add: map_of_eq_None_iff)
  qed
  then have rs': "rs = map (\<lambda>i. the (map_of finished i)) [0..<?n]"
    unfolding rs by (intro map_filter_all_Some) simp
  have "TaskDone kind i \<in> set evs \<and> (\<exists>s1 evs1 s2. func (xs ! i) s1 = (Inr (rs ! i), evs1, s2))"
    if "i < ?n" for i
  proof -
    from dom [OF that] obtain b where b: "map_of finished i = Some b" by auto
    then have "(i, b) \<in> set finished" by (rule map_of_SomeD)
    with each have "TaskDone kind i \<in> set evs \<and> (\<exists>s1 evs1 s2. func (xs ! i) s1 = (Inr b, evs1, s2))"
      by blast
    moreover from rs' that b have "rs ! i = b" by simp
    ultimately show ?thesis by simp
  qed
  with rs' show ?thesis by simp
qed

subsection \<open>The steps of a completed characterization\<close>

lemma abort_unless_eq [simp]:
  "(if \<not> a then io_bind (emit ev) (\<lambda>_. io_raise e) else io_ret ()) s = (Inr u, evs, s')
     \<longleftrightarrow> a \<and> evs = [] \<and> s' = s"
  by (auto elim!: io_bind_InrE)

lemma pool_new_eq [simp]: "pool_new p s = (Inr u, evs, s') \<longleftrightarrow> 1 \<le> p \<and> evs = [] \<and> s' = s"
  by (auto simp: pool_new_def)

lemma characterize_steps:
  assumes "characterize env ref fl c dir p s = (Inr (ss, ctrl, vcf, cs, rf), evs, s')"
  obtains manifest gen names1 names2 names3 rs biased repeats
      s4 s5 s6 e6 s7 e7 s8 e8 s9 e9 u9 s10 s11 s12 e12 s13 e13 s14 s15 e15 s16 e16 u16 e17
  where
    "answer_samples env (ReadSamplesFromText fl (Some dir)) s4 = (Inr manifest, s5)"
    "map_io (\<lambda>sample. call (answer_sample env) (GenerateIntermediateFiles sample)) manifest s5
       = (Inr gen, e6, s6)"
    "for_each (\<lambda>sample. for_each (align_fastqs env ref p sample) (enumerate 0 (fastqs sample)))
       gen s6 = (Inr (), e7, s7)"
    "map_io (\<lambda>s. call (answer_files env) (GetIntermediateFileNames s)) gen s7 = (Inr names1, e8, s8)"
    "pool_map env ProcessSams (process_sams env)
       (map (\<lambda>(n, f). (n, f, ref)) (zip (map sample_name gen) names1)) s8 = (Inr u9, e9, s9)"
    "answer_unit env (RunHaplotypeCaller (map merged_bam gen) ref
       (path_join dir [''gatk_output'', ''haplotype_caller_output.vcf''])
       (path_join dir [''logs'', ''haplotype_caller.log'']) p) s9 = (Inr (), s10)"
    "answer_value env (ReadChromSizes ref) s10 = (Inr cs, s11)"
    "map_io (\<lambda>s. call (answer_files env) (GetIntermediateFileNames s)) gen s11 = (Inr names2, e12, s12)"
    "pool_map env AnalyzeDepth (analyze_depth_distribution env)
       (map (\<lambda>(i, f). (i, f, ref, cs)) (zip [0..<length gen] names2)) s12 = (Inr rs, e13, s13)"
    "assign_strand_bias rs gen = Inr biased"
    "answer_value env (ReadRepeats (repeat_file_name ref)) s13 = (Inr repeats, s14)"
    "map_io (\<lambda>s. call (answer_files env) (GetIntermediateFileNames s)) biased s14 = (Inr names3, e15, s15)"
    "pool_map env CharacterizeRepeats (characterize_repeat_indel_rates env)
       (map (\<lambda>(f, h). (f, repeats, h)) (zip names3 (map repeat_indel_header biased))) s15
       = (Inr u16, e16, s16)"
    "map_io (\<lambda>sample. io_bind (call (answer_value env) (ReadFits (repeat_indel_fits sample)))
                (\<lambda>fits. io_ret (sample\<lparr>repeat_indel_fits_dict := fits\<rparr>))) biased s16
       = (Inr ss, e17, s')"
    "ctrl = find_control c manifest"
    "vcf = path_join dir [''gatk_output'', ''haplotype_caller_output.vcf'']"
    "rf = repeat_file_name ref"
    "evs = [CheckReferenceIndices ref, GenerateExperimentDirectory dir,
            ReadSamplesFromText fl (Some dir)] @ e6 @ e7 @ e8 @ e9
           @ [RunHaplotypeCaller (map merged_bam gen) ref
                (path_join dir [''gatk_output'', ''haplotype_caller_output.vcf''])
                (path_join dir [''logs'', ''haplotype_caller.log'']) p,
              ReadChromSizes ref] @ e12 @ e13
           @ [ReadRepeats (repeat_file_name ref)] @ e15 @ e16 @ e17"
proof -
  from assms show ?thesis
    unfolding characterize_def Let_def
    apply (elim io_bind_InrE)
    apply hypsubst
    apply (simp only: call_eq io_lift_eq io_ret_eq abort_unless_eq pool_new_eq sum.inject prod.inject)
    apply (elim conjE)
    apply hypsubst
    apply (rule that; (assumption | simp))
    done
qed

subsection \<open>Completed loops over the samples\<close>

lemma map_io_ok:
  assumes "map_io f xs s = (Inr ys, evs, s')"
  shows "list_all2 (\<lambda>x y. \<exists>s1 evs1 s2. f x s1 = (Inr y, evs1, s2)) xs ys"
  using assms
proof (induction xs arbitrary: s ys evs)
  case Nil
  then show ?case by simp
next
  case (Cons x xs)
  from Cons.prems obtain y evs1 s1 ys' evs2 where
    "f x s = (Inr y, evs1, s1)" "map_io f xs s1 = (Inr ys', evs2, s')" "ys = y # ys'"
    by (auto elim!: io_bind_InrE)
  with Cons.IH show ?case by auto
qed

lemma map_io_call_events:
  assumes "map_io (\<lambda>x. call ans (ev x)) xs s = (Inr ys, evs, s')"
  shows "evs = map ev xs"
  using assms
  by (induction xs arbitrary: s ys evs) (auto elim!: io_bind_InrE)

lemma map_io_call_ok:
  assumes "map_io (\<lambda>x. call ans (ev x)) xs s = (Inr ys, evs, s')"
  shows "length ys = length xs"
    and "i < length xs \<Longrightarrow> \<exists>s1 s2. ans (ev (xs ! i)) s1 = (Inr (ys ! i), s2)"
proof -
  from map_io_ok [OF assms]
  have all: "list_all2 (\<lambda>x y. \<exists>s1 evs1 s2. call ans (ev x) s1 = (Inr y, evs1, s2)) xs ys" .
  then show "length ys = length xs" by (simp add: list_all2_lengthD)
  show "\<exists>s1 s2. ans (ev (xs ! i)) s1 = (Inr (ys ! i), s2)" if "i < length xs"
    using list_all2_nthD [OF all that] by auto
qed

lemma read_fits_events:
  assumes "map_io (\<lambda>sample. io_bind (call ans (ReadFits (repeat_indel_fits sample)))
              (\<lambda>fits. io_ret (sample\<lparr>repeat_indel_fits_dict := fits\<rparr>))) xs s = (Inr ys, evs, s')"
  shows "evs = map (\<lambda>sample. ReadFits (repeat_indel_fits sample)) xs"
  using assms
  by (induction xs arbitrary: s ys evs) (auto elim!: io_bind_InrE)

lemma read_fits_ok:
  assumes "map_io (\<lambda>sample. io_bind (call ans (ReadFits (repeat_indel_fits sample)))
              (\<lambda>fits. io_ret (sample\<lparr>repeat_indel_fits_dict := fits\<rparr>))) xs s = (Inr ys, evs, s')"
  shows "length ys = length xs"
    and "i < length xs \<Longrightarrow>
           \<exists>fits s1 s2. ans (ReadFits (repeat_indel_fits (xs ! i))) s1 = (Inr fits, s2)
             \<and> ys ! i = (xs ! i)\<lparr>repeat_indel_fits_dict := fits\<rparr>"
proof -
  let ?f = "\<lambda>sample. io_bind (call ans (ReadFits (repeat_indel_fits sample)))
              (\<lambda>fits. io_ret (sample\<lparr>repeat_indel_fits_dict := fits\<rparr>))"
  from map_io_ok [OF assms]
  have all: "list_all2 (\<lambda>x y. \<exists>s1 evs1 s2. ?f x s1 = (Inr y, evs1, s2)) xs ys" .
  then show "length ys = length xs" by (simp add: list_all2_lengthD)
  show "\<exists>fits s1 s2. ans (ReadFits (repeat_indel_fits (xs ! i))) s1 = (Inr fits, s2)
             \<and> ys ! i = (xs ! i)\<lparr>repeat_indel_fits_dict := fits\<rparr>" if "i < length xs"
  proof -
    from list_all2_nthD [OF all that] obtain s1 evs1 s2 where
      "?f (xs ! i) s1 = (Inr (ys ! i), evs1, s2)" by blast
    then show ?thesis by (auto elim!: io_bind_InrE) blast
  qed
qed

subsection \<open>The alignment loop\<close>

lemma align_fastqs_ok:
  assumes "align_fastqs env ref p sm x s = (Inr u, evs, s')"
  shows "map Some evs = [alignment_of ref p (sams sm) x]"
proof -
  obtain i g where x: "x = (i, g)" by (cases x)
  consider (empty) "g = []" | (one) f1 where "g = [f1]" | (two) f1 f2 where "g = [f1, f2]"
    | (more) f1 f2 f3 rest where "g = f1 # f2 # f3 # rest"
    by (cases g rule: mate_of.cases) auto
  then show ?thesis
  proof cases
    case empty
    with assms x show ?thesis by (auto simp: align_fastqs_def elim!: io_bind_InrE)
  next
    case one
    with assms x show ?thesis
      by (auto simp: align_fastqs_def alignment_of_def elim!: io_bind_InrE split: if_splits)
  next
    case two
    with assms x show ?thesis
      by (auto simp: align_fastqs_def alignment_of_def elim!: io_bind_InrE split: if_splits)
  next
    case more
    with assms x show ?thesis
      by (auto simp: align_fastqs_def alignment_of_def elim!: io_bind_InrE split: if_splits)
  qed
qed

lemma align_group_ok:
  assumes "for_each (align_fastqs env ref p sm) xs s = (Inr u, evs, s')"
  shows "map Some evs = map (alignment_of ref p (sams sm)) xs"
  using assms
proof (induction xs arbitrary: s evs)
  case Nil
  then show ?case by simp
next
  case (Cons x xs)
  from Cons.prems obtain u1 evs1 s1 evs2 where
    a: "align_fastqs env ref p sm x s = (Inr u1, evs1, s1)" and
    b: "for_each (align_fastqs env ref p sm) xs s1 = (Inr u, evs2, s')" and
    c: "evs = evs1 @ evs2"
    by (auto elim!: io_bind_InrE)
  from align_fastqs_ok [OF a] Cons.IH [OF b] c show ?case by simp
qed

lemma align_samples_ok:
  assumes "for_each (\<lambda>sample. for_each (align_fastqs env ref p sample)
              (enumerate 0 (fastqs sample))) ss s = (Inr u, evs, s')"
  shows "map Some evs = concat (map (\<lambda>sample. map (alignment_of ref p (sams sample))
              (enumerate 0 (fastqs sample))) ss)"
  using assms
proof (induction ss arbitrary: s evs)
  case Nil
  then show ?case by simp
next
  case (Cons x xs)
  from Cons.prems obtain u1 evs1 s1 evs2 where
    a: "for_each (align_fastqs env ref p x) (enumerate 0 (fastqs x)) s = (Inr u1, evs1, s1)" and
    b: "for_each (\<lambda>sample. for_each (align_fastqs env ref p sample)
              (enumerate 0 (fastqs sample))) xs s1 = (Inr u, evs2, s')" and
    c: "evs = evs1 @ evs2"
    by (auto elim!: io_bind_InrE)
  from align_group_ok [OF a] Cons.IH [OF b] c show ?case by simp
qed

subsection \<open>The depth task and the assignment of its result\<close>

lemma analyze_depth_distribution_ok:
  assumes "analyze_depth_distribution env (index, files, ref, cs) s = (Inr (j, std), evs, s')"
  shows "j = index"
    and "\<exists>vs x s1 s2.
           eval_args [item files ''_mpileup_out'', Inr (PyStr ref),
                      item files ''strand_bias_distribution''] = Inr vs
           \<and> answer_pair env (Tool ''bias_dist.calculate_bias_distribution_mpileup'' vs) s1
               = (Inr (x, std), s2)"
  using assms unfolding analyze_depth_distribution_def tool_pair_def
  by (auto elim!: io_bind_InrE) metis

lemma assign_strand_bias_ok:
  assumes "assign_strand_bias rs ss = Inr ss'" "distinct (map fst rs)"
  shows "length ss' = length ss
         \<and> (\<forall>i < length ss.
               ss' ! i = (case map_of rs i of None \<Rightarrow> ss ! i
                          | Some std \<Rightarrow> (ss ! i)\<lparr>strand_bias_std := std\<rparr>))"
  using assms
proof (induction rs arbitrary: ss)
  case Nil
  then show ?case by simp
next
  case (Cons r rest)
  obtain index std where r: "r = (index, std)" by (cases r)
  let ?next = "ss[index := (ss ! index)\<lparr>strand_bias_std := std\<rparr>]"
  from Cons.prems r have in_range: "index < length ss" and
    rest: "assign_strand_bias rest ?next = Inr ss'" by (auto split: if_splits)
  from Cons.prems r have d: "distinct (map fst rest)" and fresh: "index \<notin> fst ` set rest"
    by auto
  from fresh have none: "map_of rest index = None" by (simp add: map_of_eq_None_iff)
  from Cons.IH [OF rest d] have
    len: "length ss' = length ss" and
    ih: "\<forall>i < length ss. ss' ! i = (case map_of rest i of None \<Rightarrow> ?next ! i
                     | Some std \<Rightarrow> (?next ! i)\<lparr>strand_bias_std := std\<rparr>)" by simp_all
  have "ss' ! i = (case map_of (r # rest) i of None \<Rightarrow> ss ! i
                   | Some std \<Rightarrow> (ss ! i)\<lparr>strand_bias_std := std\<rparr>)" if "i < length ss" for i
    using ih that none in_range r
    by (cases "i = index") (auto simp: nth_list_update split: option.splits)
  with len show ?case by simp
qed

subsection \<open>What a completed characterization tells\<close>

lemma map_of_upt_indexed:
  assumes "map fst rs = [0..<n]" "i < n"
  shows "map_of rs i = Some (snd (rs ! i))"
proof -
  from assms(1) have len: "length rs = n" by (metis length_map length_upt minus_nat.diff_0)
  from assms(1) have d: "distinct (map fst rs)" by simp
  from assms len have "fst (rs ! i) = i" by (metis add_0 nth_map nth_upt)
  then have "(i, snd (rs ! i)) \<in> set rs"
    using len assms(2) by (metis nth_mem prod.collapse)
  with d show ?thesis by (rule map_of_is_SomeI)
qed

lemma filter_none:
  assumes "\<And>ev. ev \<in> set evs \<Longrightarrow> \<not> P ev"
  shows "filter P evs = []"
  using assms by (simp add: filter_empty_conv)

lemma filter_all:
  assumes "\<And>ev. ev \<in> set evs \<Longrightarrow> P ev"
  shows "filter P evs = evs"
  using assms by (simp add: filter_id_conv)

lemma pool_map_no_align: 
  assumes "pool_map env kind func xs s = (r, evs, s')" "\<And>x. emits (\<lambda>ev. \<not> is_align ev) (func x)"
  shows "filter is_align evs = []"
proof (rule filter_none)
  fix ev assume "ev \<in> set evs"
  moreover have "emits (\<lambda>ev. \<not> is_align ev) (pool_map env kind func xs)"
    by (intro emits_pool_map assms(2)) (simp_all add: is_align_def)
  ultimately show "\<not> is_align ev" using assms(1) by (blast dest: emitsD)
qed

lemma characterize_ok:
  assumes "characterize env ref fl c dir p s = (Inr (ss, ctrl, vcf, cs, rf), evs, s')"
  shows "\<forall>i < length ss. TaskDone ProcessSams i \<in> set evs \<and> TaskDone AnalyzeDepth i \<in> set evs
            \<and> TaskDone CharacterizeRepeats i \<in> set evs
            \<and> ReadFits (repeat_indel_fits (ss ! i)) \<in> set evs"
    and "\<forall>i < length ss. \<exists>sm files std fits.
            ss ! i = sm\<lparr>strand_bias_std := std, repeat_indel_fits_dict := fits\<rparr>
            \<and> (\<exists>s1 s2. answer_files env (GetIntermediateFileNames sm) s1 = (Inr files, s2))
            \<and> (\<exists>s1 evs1 s2. analyze_depth_distribution env (i, files, ref, cs) s1
                   = (Inr (i, std), evs1, s2))
            \<and> (\<exists>s1 s2. answer_value env (ReadFits (repeat_indel_fits sm)) s1 = (Inr fits, s2))"
    and "map Some (filter is_align evs)
           = concat (map (\<lambda>sample. map (alignment_of ref p (sams sample))
                            (enumerate 0 (fastqs sample))) ss)"
    and "\<exists>manifest s1 s2.
           answer_samples env (ReadSamplesFromText fl (Some dir)) s1 = (Inr manifest, s2)
           \<and> ctrl = find_control c manifest"
    and "vcf = path_join dir [''gatk_output'', ''haplotype_caller_output.vcf'']"
    and "rf = repeat_file_name ref"
proof -
  from assms obtain manifest gen names1 names2 names3 rs biased repeats
      s4 s5 s6 e6 s7 e7 s8 e8 s9 e9 u9 s10 s11 s12 e12 s13 e13 s14 s15 e15 s16 e16 u16 e17
    where
    read: "answer_samples env (ReadSamplesFromText fl (Some dir)) s4 = (Inr manifest, s5)" and
    gen: "map_io (\<lambda>sample. call (answer_sample env) (GenerateIntermediateFiles sample)) manifest s5
       = (Inr gen, e6, s6)" and
    align: "for_each (\<lambda>sample. for_each (align_fastqs env ref p sample) (enumerate 0 (fastqs sample)))
       gen s6 = (Inr (), e7, s7)" and
    names1: "map_io (\<lambda>s. call (answer_files env) (GetIntermediateFileNames s)) gen s7 = (Inr names1, e8, s8)" and
    pool1: "pool_map env ProcessSams (process_sams env)
       (map (\<lambda>(n, f). (n, f, ref)) (zip (map sample_name gen) names1)) s8 = (Inr u9, e9, s9)" and
    names2: "map_io (\<lambda>s. call (answer_files env) (GetIntermediateFileNames s)) gen s11 = (Inr names2, e12, s12)" and
    pool2: "pool_map env AnalyzeDepth (analyze_depth_distribution env)
       (map (\<lambda>(i, f). (i, f, ref, cs)) (zip [0..<length gen] names2)) s12 = (Inr rs, e13, s13)" and
    assign: "assign_strand_bias rs gen = Inr biased" and
    names3: "map_io (\<lambda>s. call (answer_files env) (GetIntermediateFileNames s)) biased s14 = (Inr names3, e15, s15)" and
    pool3: "pool_map env CharacterizeRepeats (characterize_repeat_indel_rates env)
       (map (\<lambda>(f, h). (f, repeats, h)) (zip names3 (map repeat_indel_header biased))) s15
       = (Inr u16, e16, s16)" and
    fits: "map_io (\<lambda>sample. io_bind (call (answer_value env) (ReadFits (repeat_indel_fits sample)))
                (\<lambda>fits. io_ret (sample\<lparr>repeat_indel_fits_dict := fits\<rparr>))) biased s16
       = (Inr ss, e17, s')" and
    ctrl: "ctrl = find_control c manifest" and
    vcf: "vcf = path_join dir [''gatk_output'', ''haplotype_caller_output.vcf'']" and
    rf: "rf = repeat_file_name ref" and
    evs: "evs = [CheckReferenceIndices ref, GenerateExperimentDirectory dir,
            ReadSamplesFromText fl (Some dir)] @ e6 @ e7 @ e8 @ e9
           @ [RunHaplotypeCaller (map merged_bam gen) ref
                (path_join dir [''gatk_output'', ''haplotype_caller_output.vcf''])
                (path_join dir [''logs'', ''haplotype_caller.log'']) p,
              ReadChromSizes ref] @ e12 @ e13
           @ [ReadRepeats (repeat_file_name ref)] @ e15 @ e16 @ e17"
    by (rule characterize_steps)
  let ?n = "length gen"
  have len1: "length names1 = ?n" by (rule map_io_call_ok(1) [OF names1])
  have len2: "length names2 = ?n" by (rule map_io_call_ok(1) [OF names2])
  have len3: "length names3 = length biased" by (rule map_io_call_ok(1) [OF names3])
  \<comment> \<open>the depth tasks\<close>
  let ?args2 = "map (\<lambda>(i, f). (i, f, ref, cs)) (zip [0..<?n] names2)"
  have args2: "?args2 ! i = (i, names2 ! i, ref, cs)" if "i < ?n" for i
    using that len2 by simp
  from pool_map_ok [OF pool2] len2 have
    len_rs: "length rs = ?n" and
    depth: "\<forall>i < ?n. TaskDone AnalyzeDepth i \<in> set e13
              \<and> (\<exists>s1 evs1 s2. analyze_depth_distribution env (?args2 ! i) s1
                     = (Inr (rs ! i), evs1, s2))"
    by simp_all
  have ran: "\<exists>s1 evs1 s2. analyze_depth_distribution env (i, names2 ! i, ref, cs) s1
                = (Inr (i, snd (rs ! i)), evs1, s2)" if "i < ?n" for i
  proof -
    from depth that args2 [OF that] obtain s1 evs1 s2 where
      "analyze_depth_distribution env (i, names2 ! i, ref, cs) s1 = (Inr (rs ! i), evs1, s2)"
      by auto
    moreover from this have "fst (rs ! i) = i"
      using analyze_depth_distribution_ok(1) [of env i "names2 ! i" ref cs s1 "fst (rs ! i)" "snd (rs ! i)"]
      by simp
    ultimately show ?thesis by (metis prod.collapse)
  qed
  have fst_rs: "map fst rs = [0..<?n]"
  proof (rule nth_equalityI)
    show "length (map fst rs) = length [0..<?n]" using len_rs by simp
    fix i assume "i < length (map fst rs)"
    then have i: "i < ?n" using len_rs by simp
    from depth i args2 [OF i] obtain t1 evs2 t2 where
      b: "analyze_depth_distribution env (i, names2 ! i, ref, cs) t1 = (Inr (rs ! i), evs2, t2)"
      by auto
    have "fst (rs ! i) = i"
      using analyze_depth_distribution_ok(1) [of env i "names2 ! i" ref cs t1 "fst (rs ! i)" "snd (rs ! i)"] b
      by simp
    with i len_rs show "map fst rs ! i = [0..<?n] ! i" by simp
  qed
  then have dist: "distinct (map fst rs)" by simp
  from assign_strand_bias_ok [OF assign dist] have
    len_b: "length biased = ?n" and
    biased: "\<forall>i < ?n. biased ! i = (case map_of rs i of None \<Rightarrow> gen ! i
                | Some std \<Rightarrow> (gen ! i)\<lparr>strand_bias_std := std\<rparr>)"
    by simp_all
  have biased_nth: "biased ! i = (gen ! i)\<lparr>strand_bias_std := snd (rs ! i)\<rparr>" if "i < ?n" for i
    using biased that map_of_upt_indexed [OF fst_rs that] by simp
  have len_ss: "length ss = ?n" using read_fits_ok(1) [OF fits] len_b by simp
  \<comment> \<open>what each sample of the result is\<close>
  have shape: "\<exists>fits s1 s2.
       answer_value env (ReadFits (repeat_indel_fits (gen ! i))) s1 = (Inr fits, s2)
       \<and> ss ! i = (gen ! i)\<lparr>strand_bias_std := snd (rs ! i), repeat_indel_fits_dict := fits\<rparr>"
    if "i < ?n" for i
  proof -
    from that len_b have "i < length biased" by simp
    from read_fits_ok(2) [OF fits this] obtain f s1 s2 where
      "answer_value env (ReadFits (repeat_indel_fits (biased ! i))) s1 = (Inr f, s2)"
      "ss ! i = (biased ! i)\<lparr>repeat_indel_fits_dict := f\<rparr>" by blast
    with biased_nth [OF that] show ?thesis by auto
  qed
  show "\<forall>i < length ss. \<exists>sm files std fits.
            ss ! i = sm\<lparr>strand_bias_std := std, repeat_indel_fits_dict := fits\<rparr>
            \<and> (\<exists>s1 s2. answer_files env (GetIntermediateFileNames sm) s1 = (Inr files, s2))
            \<and> (\<exists>s1 evs1 s2. analyze_depth_distribution env (i, files, ref, cs) s1
                   = (Inr (i, std), evs1, s2))
            \<and> (\<exists>s1 s2. answer_value env (ReadFits (repeat_indel_fits sm)) s1 = (Inr fits, s2))"
  proof (intro allI impI)
    fix i assume "i < length ss"
    then have i: "i < ?n" using len_ss by simp
    from shape [OF i] obtain f where
      f: "\<exists>s1 s2. answer_value env (ReadFits (repeat_indel_fits (gen ! i))) s1 = (Inr f, s2)"
        "ss ! i = (gen ! i)\<lparr>strand_bias_std := snd (rs ! i), repeat_indel_fits_dict := f\<rparr>"
      by blast
    have files: "\<exists>s1 s2. answer_files env (GetIntermediateFileNames (gen ! i)) s1
                    = (Inr (names2 ! i), s2)"
      using map_io_call_ok(2) [OF names2 i] .
    from f files ran [OF i] show "\<exists>sm files std fits.
            ss ! i = sm\<lparr>strand_bias_std := std, repeat_indel_fits_dict := fits\<rparr>
            \<and> (\<exists>s1 s2. answer_files env (GetIntermediateFileNames sm) s1 = (Inr files, s2))
            \<and> (\<exists>s1 evs1 s2. analyze_depth_distribution env (i, files, ref, cs) s1
                   = (Inr (i, std), evs1, s2))
            \<and> (\<exists>s1 s2. answer_value env (ReadFits (repeat_indel_fits sm)) s1 = (Inr fits, s2))"
      by blast
  qed
  \<comment> \<open>the tasks are done\<close>
  from pool_map_ok [OF pool1] len1 have
    sams_done: "\<forall>i < ?n. TaskDone ProcessSams i \<in> set e9" by simp
  from pool_map_ok [OF pool3] len3 len_b have
    repeats_done: "\<forall>i < ?n. TaskDone CharacterizeRepeats i \<in> set e16" by simp
  have e17: "e17 = map (\<lambda>sample. ReadFits (repeat_indel_fits sample)) biased"
    by (rule read_fits_events [OF fits])
  have fits_read: "ReadFits (repeat_indel_fits (ss ! i)) \<in> set e17" if "i < ?n" for i
  proof -
    from shape [OF that] biased_nth [OF that]
    have "repeat_indel_fits (ss ! i) = repeat_indel_fits (biased ! i)" by auto
    moreover have "biased ! i \<in> set biased" using that len_b by simp
    ultimately show ?thesis unfolding e17 by auto
  qed
  show "\<forall>i < length ss. TaskDone ProcessSams i \<in> set evs \<and> TaskDone AnalyzeDepth i \<in> set evs
            \<and> TaskDone CharacterizeRepeats i \<in> set evs
            \<and> ReadFits (repeat_indel_fits (ss ! i)) \<in> set evs"
    using sams_done depth repeats_done fits_read len_ss unfolding evs by simp
  \<comment> \<open>the alignments\<close>
  have e6: "e6 = map GenerateIntermediateFiles manifest" by (rule map_io_call_events [OF gen])
  have e8: "e8 = map GetIntermediateFileNames gen" by (rule map_io_call_events [OF names1])
  have e12: "e12 = map GetIntermediateFileNames gen" by (rule map_io_call_events [OF names2])
  have e15: "e15 = map GetIntermediateFileNames biased" by (rule map_io_call_events [OF names3])
  have no6: "filter is_align e6 = []" unfolding e6 by (rule filter_none) (auto simp: is_align_def)
  have no8: "filter is_align e8 = []" unfolding e8 by (rule filter_none) (auto simp: is_align_def)
  have no12: "filter is_align e12 = []" unfolding e12 by (rule filter_none) (auto simp: is_align_def)
  have no15: "filter is_align e15 = []" unfolding e15 by (rule filter_none) (auto simp: is_align_def)
  have no17: "filter is_align e17 = []" unfolding e17 by (rule filter_none) (auto simp: is_align_def)
  have no9: "filter is_align e9 = []"
    by (rule pool_map_no_align [OF pool1]) (rule emits_process_sams, simp add: is_align_def)
  have no13: "filter is_align e13 = []"
    by (rule pool_map_no_align [OF pool2])
       (rule emits_analyze_depth_distribution, simp add: is_align_def)
  have no16: "filter is_align e16 = []"
    by (rule pool_map_no_align [OF pool3])
       (rule emits_characterize_repeat_indel_rates, simp add: is_align_def)
  have all7: "filter is_align e7 = e7"
  proof (rule filter_all)
    fix ev assume "ev \<in> set e7"
    moreover have "emits is_align (for_each (\<lambda>sample. for_each (align_fastqs env ref p sample)
        (enumerate 0 (fastqs sample))) gen)"
      by (intro emits_for_each emits_align_fastqs) (simp add: is_align_def)
    ultimately show "is_align ev" using align by (blast dest: emitsD)
  qed
  have "filter is_align evs = e7"
    unfolding evs using no6 no8 no9 no12 no13 no15 no16 no17 all7 by (simp add: is_align_def)
  moreover have "map (\<lambda>sample. map (alignment_of ref p (sams sample)) (enumerate 0 (fastqs sample))) ss
      = map (\<lambda>sample. map (alignment_of ref p (sams sample)) (enumerate 0 (fastqs sample))) gen"
  proof (rule nth_equalityI)
    show "length (map (\<lambda>sample. map (alignment_of ref p (sams sample)) (enumerate 0 (fastqs sample))) ss)
      = length (map (\<lambda>sample. map (alignment_of ref p (sams sample)) (enumerate 0 (fastqs sample))) gen)"
      using len_ss by simp
    fix i
    assume "i < length (map (\<lambda>sample. map (alignment_of ref p (sams sample)) (enumerate 0 (fastqs sample))) ss)"
    then have i: "i < ?n" using len_ss by simp
    from shape [OF i] have "sams (ss ! i) = sams (gen ! i)" "fastqs (ss ! i) = fastqs (gen ! i)"
      by auto
    with i len_ss show "map (\<lambda>sample. map (alignment_of ref p (sams sample)) (enumerate 0 (fastqs sample))) ss ! i
      = map (\<lambda>sample. map (alignment_of ref p (sams sample)) (enumerate 0 (fastqs sample))) gen ! i"
      by simp
  qed
  ultimately show "map Some (filter is_align evs)
           = concat (map (\<lambda>sample. map (alignment_of ref p (sams sample))
                            (enumerate 0 (fastqs sample))) ss)"
    using align_samples_ok [OF align] by simp
  show "\<exists>manifest s1 s2.
           answer_samples env (ReadSamplesFromText fl (Some dir)) s1 = (Inr manifest, s2)
           \<and> ctrl = find_control c manifest"
    using read ctrl by blast
  show "vcf = path_join dir [''gatk_output'', ''haplotype_caller_output.vcf'']" by (rule vcf)
  show "rf = repeat_file_name ref" by (rule rf)
qed

subsection \<open>The aggregation\<close>

lemma map_io_call_subset:
  assumes "map_io (\<lambda>x. call ans (ev x)) xs s = (r, evs, s')"
  shows "set evs \<subseteq> ev ` set xs"
proof -
  have "emits (\<lambda>e. e \<in> ev ` A) (map_io (\<lambda>x. call ans (ev x)) ys)" if "set ys \<subseteq> A" for ys A
    using that
  proof (induction ys)
    case Nil
    show ?case by (simp add: emits_ret)
  next
    case (Cons y ys)
    then show ?case by (auto intro!: emits_bind emits_call emits_ret)
  qed
  from emitsD [OF this [OF subset_refl] assms] show ?thesis by blast
qed

lemma aggregate_ok:
  assumes "aggregate env dir ex (ss, ctrl, vcf, cs, rf) s = (Inr u, evs, s')"
  obtains variants cleared where
    "evs = [VariantListNew vcf ss ex rf ctrl cs,
            WriteOutputTable variants (path_join dir [''output'', ''mutations.txt'']),
            WriteOutputVcf variants (path_join dir [''output'', ''mutations.vcf''])]
           @ map ClearTempFileIndices ss
           @ [WriteSampleInfoFile cleared (path_join dir [''sample_info.txt''])]"
    "length cleared = length ss"
    "\<forall>i < length ss. \<exists>s1 s2. answer_sample env (ClearTempFileIndices (ss ! i)) s1
                                  = (Inr (cleared ! i), s2)"
proof -
  from assms obtain variants cleared s3 e3 s4 where
    clear: "map_io (\<lambda>sample. call (answer_sample env) (ClearTempFileIndices sample)) ss s3
              = (Inr cleared, e3, s4)" and
    evs: "evs = [VariantListNew vcf ss ex rf ctrl cs,
            WriteOutputTable variants (path_join dir [''output'', ''mutations.txt'']),
            WriteOutputVcf variants (path_join dir [''output'', ''mutations.vcf''])]
           @ e3 @ [WriteSampleInfoFile cleared (path_join dir [''sample_info.txt''])]"
    unfolding aggregate_def Let_def
    apply simp
    apply (elim io_bind_InrE)
    apply hypsubst
    apply (simp only: call_eq)
    apply (elim conjE)
    apply hypsubst
    apply simp
    done
  from map_io_call_events [OF clear] map_io_call_ok [OF clear] evs that show ?thesis
    by simp
qed

lemma aggregate_begins:
  assumes "aggregate env dir ex (ss, ctrl, vcf, cs, rf) s = (r, evs, s')"
  shows "\<exists>rest. evs = VariantListNew vcf ss ex rf ctrl cs # rest
                 \<and> filter is_variant_list rest = []"
  using assms unfolding aggregate_def Let_def
  apply simp
  apply (elim io_bindE)
       apply (auto simp: is_variant_list_def filter_empty_conv dest!: map_io_call_subset)
  done

subsection \<open>Runs that reach the aggregation\<close>

lemma run_pipeline_reached:
  assumes "run_pipeline env ref fl c dir p ex s = (r, evs, s')"
      and "ev \<in> set evs" "is_aggregation ev"
  obtains ss ctrl vcf cs rf evs1 s1 evs2 where
    "characterize env ref fl c dir p s = (Inr (ss, ctrl, vcf, cs, rf), evs1, s1)"
    "aggregate env dir ex (ss, ctrl, vcf, cs, rf) s1 = (r, evs2, s')"
    "evs = evs1 @ evs2" "ev \<in> set evs2"
proof -
  from assms(1) have "io_bind (characterize env ref fl c dir p) (aggregate env dir ex) s = (r, evs, s')"
    by (simp add: run_pipeline_split)
  then show ?thesis
  proof (cases rule: io_bindE)
    case (raised e)
    from emitsD [OF emits_characterize raised(1) assms(2)] assms(3) show ?thesis by simp
  next
    case (went_on a evs1 s1 evs2)
    have "ev \<notin> set evs1"
      using emitsD [OF emits_characterize went_on(1), of ev] assms(3) by blast
    with assms(2) went_on(3) have "ev \<in> set evs2" by simp
    with went_on that show ?thesis by (cases a) auto
  qed
qed

lemma run_pipeline_completed:
  assumes "run_pipeline env ref fl c dir p ex s = (Inr u, evs, s')"
  obtains ss ctrl vcf cs rf evs1 s1 evs2 where
    "characterize env ref fl c dir p s = (Inr (ss, ctrl, vcf, cs, rf), evs1, s1)"
    "aggregate env dir ex (ss, ctrl, vcf, cs, rf) s1 = (Inr u, evs2, s')"
    "evs = evs1 @ evs2"
proof -
  from assms have "io_bind (characterize env ref fl c dir p) (aggregate env dir ex) s = (Inr u, evs, s')"
    by (simp add: run_pipeline_split)
  then show ?thesis
  proof (cases rule: io_bind_InrE)
    case (1 a evs1 s1 evs2)
    with that show ?thesis by (cases a) auto
  qed
qed

lemma variant_list_reached:
  assumes "run_pipeline env ref fl c dir p ex s = (r, evs, s')"
      and "VariantListNew v ss x rf ctrl cs \<in> set evs"
  obtains evs1 s1 rest where
    "characterize env ref fl c dir p s = (Inr (ss, ctrl, v, cs, rf), evs1, s1)"
    "evs = evs1 @ VariantListNew v ss x rf ctrl cs # rest" "x = ex"
    "filter is_aggregation evs1 = []"
proof -
  have agg: "is_aggregation (VariantListNew v ss x rf ctrl cs)" by (simp add: is_aggregation_def)
  from run_pipeline_reached [OF assms agg] obtain ss0 ctrl0 vcf0 cs0 rf0 evs1 s1 evs2 where
    char: "characterize env ref fl c dir p s = (Inr (ss0, ctrl0, vcf0, cs0, rf0), evs1, s1)" and
    aggr: "aggregate env dir ex (ss0, ctrl0, vcf0, cs0, rf0) s1 = (r, evs2, s')" and
    evs: "evs = evs1 @ evs2" and mem: "VariantListNew v ss x rf ctrl cs \<in> set evs2"
    by blast
  from aggregate_begins [OF aggr] obtain rest where
    evs2: "evs2 = VariantListNew vcf0 ss0 ex rf0 ctrl0 cs0 # rest" and
    none: "filter is_variant_list rest = []" by blast
  have "VariantListNew v ss x rf ctrl cs \<notin> set rest"
    using none by (auto simp: filter_empty_conv is_variant_list_def)
  with mem evs2 have same: "v = vcf0" "ss = ss0" "x = ex" "rf = rf0" "ctrl = ctrl0" "cs = cs0"
    by auto
  have "filter is_aggregation evs1 = []"
    by (rule filter_none) (rule emitsD [OF emits_characterize char])
  with char evs evs2 same that show ?thesis by simp
qed

lemma assign_strand_bias_in_range:
  assumes "assign_strand_bias rs ss = Inr ss'" "(i, std) \<in> set rs"
  shows "i < length ss"
  using assms
proof (induction rs arbitrary: ss)
  case Nil
  then show ?case by simp
next
  case (Cons r rest)
  obtain index v where r: "r = (index, v)" by (cases r)
  from Cons.prems(1) r have in_range: "index < length ss" and
    rest: "assign_strand_bias rest (ss[index := (ss ! index)\<lparr>strand_bias_std := v\<rparr>]) = Inr ss'"
    by (auto split: if_splits)
  show ?case
  proof (cases "(i, std) = r")
    case True
    with r in_range show ?thesis by simp
  next
    case False
    with Cons.prems(2) have "(i, std) \<in> set rest" by simp
    from Cons.IH [OF rest this] show ?thesis by simp
  qed
qed

subsection \<open>Runs of call\_variants\<close>

lemma state_of_eq [simp]: "state_of (r, evs, s') = s'" by (simp add: state_of_def)

lemma chrom_step:
  "(case chrom of
      Some f \<Rightarrow> if f \<noteq> [] then call A (ReadChromSizesFromFile f) else call A (ReadChromSizes ref)
    | None \<Rightarrow> call A (ReadChromSizes ref))
   = call A (chrom_sizes_source ref chrom)"
  by (simp add: chrom_sizes_source_def split: option.splits)

lemma not_found_eq [simp]:
  "(if \<not> found then io_raise e else io_ret ()) s = (Inr u, evs, s')
     \<longleftrightarrow> found \<and> evs = [] \<and> s' = s"
  by auto

lemma call_variants_reached:
  assumes "call_variants env ref c sl vcf hdr chrom excl s = (r, evs, s')"
      and "VariantListNew v ss x rf ctrl cs \<in> set evs"
  shows "\<exists>s1 s2 s3 rest.
           answer_samples env (ReadSamplesFromText sl None) s = (Inr ss, s1)
           \<and> answer_value env (chrom_sizes_source ref chrom) s2 = (Inr cs, s3)
           \<and> ctrl = find_control c ss \<and> v = vcf \<and> x = excl \<and> rf = repeat_file_name ref
           \<and> evs = [ReadSamplesFromText sl None, CreateReferenceIndices ref,
                    PathExists (repeat_file_name ref), chrom_sizes_source ref chrom,
                    VariantListNew vcf ss excl (repeat_file_name ref) (find_control c ss) cs]
                   @ rest
           \<and> set rest \<subseteq> {ev. is_variant_write ev}"
  using assms unfolding call_variants_def Let_def chrom_step
  apply (elim io_bindE)
         apply (simp_all add: chrom_sizes_source_def is_variant_write_def
      split: if_splits option.splits)
     apply blast+
  done

lemma call_variants_completed:
  assumes "call_variants env ref c sl vcf hdr chrom excl s = (Inr u, evs, s')"
  obtains ss cs variants where
    "evs = [ReadSamplesFromText sl None, CreateReferenceIndices ref,
            PathExists (repeat_file_name ref), chrom_sizes_source ref chrom,
            VariantListNew vcf ss excl (repeat_file_name ref) (find_control c ss) cs,
            WriteOutputTable variants (hdr @ ''.variants.txt''),
            WriteOutputVcf variants (hdr @ ''.variants.vcf'')]"
proof -
  from assms show ?thesis
    unfolding call_variants_def Let_def chrom_step
    apply (elim io_bind_InrE)
    apply hypsubst
    apply (simp only: call_eq not_found_eq)
    apply (elim conjE)
    apply hypsubst
    apply (rule that)
    apply simp
    done
qed

subsection \<open>Pieces of program that differ in one call\<close>

lemma similarI:
  "(\<And>s. result_of (m1 s) = result_of (m2 s) \<and> state_of (m1 s) = state_of (m2 s)
          \<and> filter P (events_of (m1 s)) = filter P (events_of (m2 s))) \<Longrightarrow> similar P m1 m2"
  by (simp add: similar_def)

lemma similar_refl: "similar P m m"
  by (simp add: similar_def)

lemma similar_bind:
  assumes "similar P m1 m2" "\<And>a. similar P (f1 a) (f2 a)"
  shows "similar P (io_bind m1 f1) (io_bind m2 f2)"
proof (rule similarI)
  fix s
  obtain r1 e1 t1 where a: "m1 s = (r1, e1, t1)" by (rule run_cases)
  obtain r2 e2 t2 where b: "m2 s = (r2, e2, t2)" by (rule run_cases)
  from assms(1) a b have same: "r1 = r2" "t1 = t2" "filter P e1 = filter P e2"
    unfolding similar_def by (metis events_of_eq result_of_eq state_of_eq)+
  show "result_of (io_bind m1 f1 s) = result_of (io_bind m2 f2 s)
      \<and> state_of (io_bind m1 f1 s) = state_of (io_bind m2 f2 s)
      \<and> filter P (events_of (io_bind m1 f1 s)) = filter P (events_of (io_bind m2 f2 s))"
  proof (cases r2)
    case (Inl e)
    with a b same show ?thesis by (simp add: io_bind_def)
  next
    case (Inr x)
    obtain r3 e3 t3 where c: "f1 x t2 = (r3, e3, t3)" by (rule run_cases)
    obtain r4 e4 t4 where d: "f2 x t2 = (r4, e4, t4)" by (rule run_cases)
    from assms(2) [of x] c d have "r3 = r4" "t3 = t4" "filter P e3 = filter P e4"
      unfolding similar_def by (metis events_of_eq result_of_eq state_of_eq)+
    with a b c d same Inr show ?thesis by (simp add: io_bind_def)
  qed
qed

lemma similar_call:
  assumes "\<And>s. ans ev1 s = ans ev2 s" "\<not> P ev1" "\<not> P ev2"
  shows "similar P (call ans ev1) (call ans ev2)"
  using assms by (auto simp: similar_def call_def split: prod.splits)

subsection \<open>Small facts for the claims\<close>


lemma io_bind_call_hd:
  "io_bind (call ans ev) f s = (r, evs, s') \<Longrightarrow> \<exists>more. evs = ev # more"
  by (auto elim!: io_bindE)

lemma io_bind_bind_raised:
  "m1 s = (Inr a, evs1, s1) \<Longrightarrow> m2 a s1 = (Inl e, evs2, s2)
     \<Longrightarrow> io_bind m1 (\<lambda>x. io_bind (m2 x) (f x)) s = (Inl e, evs1 @ evs2, s2)"
  by (simp add: io_bind_def)

lemma is_variant_write_aggregation: "is_variant_write ev \<Longrightarrow> is_aggregation ev"
  by (cases ev) (simp_all add: is_variant_write_def is_aggregation_def)

lemma emits_call_variants:
  "emits (\<lambda>ev. \<not> is_index_check ev) (call_variants env ref c sl vcf hdr chrom excl)"
  unfolding call_variants_def Let_def
  by (intro emits_intros) (simp_all add: is_index_check_def)

lemma repeat_file_name_examples:
  "repeat_file_name ''ref/genome.fa'' = ''ref/genome.repeats''"
  "repeat_file_name ''genome'' = ''genome.repeats''"
  "repeat_file_name ''run.1/genome'' = ''run.1/genome.repeats''"
  by code_simp+

lemma path_join_examples:
  "path_join ''exp'' [''output'', ''mutations.txt''] = ''exp/output/mutations.txt''"
  "path_join ''exp/'' [''sample_info.txt''] = ''exp/sample_info.txt''"
  "path_join ''exp'' [''/tmp'', ''x''] = ''/tmp/x''"
  by simp_all

lemma emits_run_pipeline_no_repeat_check:
  "emits (\<lambda>ev. \<not> is_repeat_check ev) (run_pipeline env ref fl c dir p ex)"
  unfolding run_pipeline_def Let_def
  by (intro emits_intros) (simp_all add: is_repeat_check_def)

section \<open>The claims\<close>

text \<open>
  C1 (the code does not do this). The claim: every entry point builds the repeat file
  \<open><reference>.repeats\<close> when it is absent and never reads it without first making sure
  it exists. No run of \<open>run_pipeline\<close>, whatever the collaborators do, asks whether the
  file exists or calls \<open>create_repeat_file\<close> (which pipeline.py imports). In the world
  \<open>disk_no_repeats\<close> the reference is indexed and its repeat file does not exist: there
  \<open>run_pipeline\<close> goes straight to \<open>read_repeats\<close>, its last call, which fails. \<open>call_variants\<close> asks, finds the file
  absent, and ends in \<open>NameError\<close> on the name \<open>create_repeat_file\<close>, which
  call\_variants.py does not import: the file is not built.
\<close>

theorem repeat_file_not_ensured:
  "filter is_repeat_check (events_of (run_pipeline env ref fl c dir p ex s)) = []
   \<and> result_of (run_pipeline lab ''ref/genome.fa'' ''fastqs.txt'' ''control'' ''exp'' 2 None
       disk_no_repeats) = Inl (Failure ''IOError'')
   \<and> last (events_of (run_pipeline lab ''ref/genome.fa'' ''fastqs.txt'' ''control'' ''exp'' 2 None
       disk_no_repeats)) = ReadRepeats ''ref/genome.repeats''
   \<and> result_of (call_variants lab ''ref/genome.fa'' ''control'' ''samples.txt'' ''in.vcf'' ''out''
       None None disk_no_repeats) = Inl (NameError ''create_repeat_file'')
   \<and> events_of (call_variants lab ''ref/genome.fa'' ''control'' ''samples.txt'' ''in.vcf'' ''out''
       None None disk_no_repeats)
       = [ReadSamplesFromText ''samples.txt'' None, CreateReferenceIndices ''ref/genome.fa'',
          PathExists ''ref/genome.repeats'']"
proof -
  obtain r evs s' where run: "run_pipeline env ref fl c dir p ex s = (r, evs, s')"
    by (rule run_cases)
  have "filter is_repeat_check evs = []"
    by (rule filter_none) (rule emitsD [OF emits_run_pipeline_no_repeat_check run])
  with run have general:
    "filter is_repeat_check (events_of (run_pipeline env ref fl c dir p ex s)) = []" by simp
  have concrete: "result_of (run_pipeline lab ''ref/genome.fa'' ''fastqs.txt'' ''control'' ''exp'' 2 None
       disk_no_repeats) = Inl (Failure ''IOError'')
   \<and> last (events_of (run_pipeline lab ''ref/genome.fa'' ''fastqs.txt'' ''control'' ''exp'' 2 None
       disk_no_repeats)) = ReadRepeats ''ref/genome.repeats''
   \<and> result_of (call_variants lab ''ref/genome.fa'' ''control'' ''samples.txt'' ''in.vcf'' ''out''
       None None disk_no_repeats) = Inl (NameError ''create_repeat_file'')
   \<and> events_of (call_variants lab ''ref/genome.fa'' ''control'' ''samples.txt'' ''in.vcf'' ''out''
       None None disk_no_repeats)
       = [ReadSamplesFromText ''samples.txt'' None, CreateReferenceIndices ''ref/genome.fa'',
          PathExists ''ref/genome.repeats'']"
    by code_simp
  from general concrete show ?thesis by (rule conjI)
qed

text \<open>
  C2 (as amended). \<open>run_pipeline\<close> on a reference assembly that lacks its indices writes
  the directive to run \<open>muver index_reference\<close> to the standard error stream and exits,
  having done nothing but the check. \<open>call_variants\<close> does not check and never writes the
  directive: once the sample manifest is read, its next action is to create the indices
  itself, and it goes on.
\<close>

theorem unindexed_reference_aborts_pipeline:
  "(\<forall>s1. answer_bool env (CheckReferenceIndices ref) s = (Inr False, s1)
      \<longrightarrow> run_pipeline env ref fl c dir p ex s
          = (Inl SystemExit, [CheckReferenceIndices ref, StderrWrite not_indexed_message], s1))
   \<and> filter is_index_check (events_of (call_variants env ref c sl vcf hdr chrom excl s)) = []
   \<and> (\<forall>manifest s1. answer_samples env (ReadSamplesFromText sl None) s = (Inr manifest, s1)
      \<longrightarrow> take 2 (events_of (call_variants env ref c sl vcf hdr chrom excl s))
          = [ReadSamplesFromText sl None, CreateReferenceIndices ref])"
proof (intro conjI allI impI)
  fix s1
  assume "answer_bool env (CheckReferenceIndices ref) s = (Inr False, s1)"
  then have checked: "call (answer_bool env) (CheckReferenceIndices ref) s
      = (Inr False, [CheckReferenceIndices ref], s1)" by simp
  have "run_pipeline env ref fl c dir p ex s
      = (Inl SystemExit, [CheckReferenceIndices ref] @ [StderrWrite not_indexed_message], s1)"
    unfolding run_pipeline_def
    by (rule io_bind_bind_raised, rule checked) (simp add: io_bind_def emit_def io_raise_def)
  then show "run_pipeline env ref fl c dir p ex s
          = (Inl SystemExit, [CheckReferenceIndices ref, StderrWrite not_indexed_message], s1)"
    by simp
next
  obtain r evs s' where run: "call_variants env ref c sl vcf hdr chrom excl s = (r, evs, s')"
    by (rule run_cases)
  have "filter is_index_check evs = []"
    by (rule filter_none) (rule emitsD [OF emits_call_variants run])
  with run show "filter is_index_check (events_of (call_variants env ref c sl vcf hdr chrom excl s)) = []"
    by simp
next
  fix manifest s1
  assume "answer_samples env (ReadSamplesFromText sl None) s = (Inr manifest, s1)"
  then have read: "call (answer_samples env) (ReadSamplesFromText sl None) s
      = (Inr manifest, [ReadSamplesFromText sl None], s1)" by simp
  let ?rest = "\<lambda>samples. io_bind (call (answer_unit env) (CreateReferenceIndices ref))
      (\<lambda>_. io_bind (call (answer_bool env) (PathExists (repeat_file_name ref)))
      (\<lambda>found. io_bind (if \<not> found then io_raise (NameError ''create_repeat_file'') else io_ret ())
      (\<lambda>_. io_bind (case chrom of
                Some f \<Rightarrow>
                  if f \<noteq> [] then call (answer_value env) (ReadChromSizesFromFile f)
                  else call (answer_value env) (ReadChromSizes ref)
              | None \<Rightarrow> call (answer_value env) (ReadChromSizes ref))
      (\<lambda>sizes. io_bind (call (answer_value env)
                (VariantListNew vcf samples excl (repeat_file_name ref)
                   (find_control c samples) sizes))
      (\<lambda>variants. io_bind (call (answer_unit env) (WriteOutputTable variants (hdr @ ''.variants.txt'')))
      (\<lambda>_. call (answer_unit env) (WriteOutputVcf variants (hdr @ ''.variants.vcf''))))))))"
  obtain r evs2 s' where rest: "?rest manifest s1 = (r, evs2, s')" by (rule run_cases)
  from io_bind_call_hd [OF rest]
  obtain more where "evs2 = CreateReferenceIndices ref # more" ..
  moreover have "call_variants env ref c sl vcf hdr chrom excl s
      = (r, [ReadSamplesFromText sl None] @ evs2, s')"
    unfolding call_variants_def Let_def
    by (rule io_bind_went_on, rule read, rule rest)
  ultimately show "take 2 (events_of (call_variants env ref c sl vcf hdr chrom excl s))
          = [ReadSamplesFromText sl None, CreateReferenceIndices ref]"
    by simp
qed

theorem unindexed_reference_aborts_pipeline_witness:
  "answer_bool lab (CheckReferenceIndices ''ref/genome.fa'') disk_unindexed
     = (Inr False, disk_unindexed)
   \<and> run_pipeline lab ''ref/genome.fa'' ''fastqs.txt'' ''control'' ''exp'' 2 None disk_unindexed
       = (Inl SystemExit,
          [CheckReferenceIndices ''ref/genome.fa'', StderrWrite not_indexed_message],
          disk_unindexed)
   \<and> answer_samples lab (ReadSamplesFromText ''samples.txt'' None) disk_unindexed
       = (Inr lab_samples, disk_unindexed)
   \<and> take 2 (events_of (call_variants lab ''ref/genome.fa'' ''control'' ''samples.txt'' ''in.vcf''
         ''out'' None None disk_unindexed))
       = [ReadSamplesFromText ''samples.txt'' None, CreateReferenceIndices ''ref/genome.fa'']
   \<and> filter is_index_check (events_of (call_variants lab ''ref/genome.fa'' ''control''
         ''samples.txt'' ''in.vcf'' ''out'' None None disk_unindexed)) = []"
proof -
  have unindexed: "answer_bool lab (CheckReferenceIndices ''ref/genome.fa'') disk_unindexed
     = (Inr False, disk_unindexed)"
    by (simp add: lab_def disk_unindexed_def)
  have manifest: "answer_samples lab (ReadSamplesFromText ''samples.txt'' None) disk_unindexed
       = (Inr lab_samples, disk_unindexed)"
    by (simp add: lab_def)
  note inst = unindexed_reference_aborts_pipeline [where env = lab
      and ref = "''ref/genome.fa''" and s = disk_unindexed and fl = "''fastqs.txt''"
      and c = "''control''" and dir = "''exp''" and p = 2 and ex = None
      and sl = "''samples.txt''" and vcf = "''in.vcf''" and hdr = "''out''" and chrom = None
      and excl = None]
  note a = inst [THEN conjunct1, rule_format, OF unindexed]
  note c = inst [THEN conjunct2, THEN conjunct1]
  note b = inst [THEN conjunct2, THEN conjunct2, rule_format, OF manifest]
  show ?thesis by (intro conjI unindexed a manifest b c)
qed

text \<open>The claim as stated fails for \<open>call_variants\<close>: on a reference without indices
  it runs to the end, creating the indices on its way.\<close>

theorem unindexed_reference_counterexample:
  "answer_bool lab (CheckReferenceIndices ''ref/genome.fa'') disk_unindexed
     = (Inr False, disk_unindexed)
   \<and> result_of (call_variants lab ''ref/genome.fa'' ''control'' ''samples.txt'' ''in.vcf'' ''out''
       None None disk_unindexed) = Inr ()
   \<and> events_of (call_variants lab ''ref/genome.fa'' ''control'' ''samples.txt'' ''in.vcf'' ''out''
       None None disk_unindexed)
       = [ReadSamplesFromText ''samples.txt'' None, CreateReferenceIndices ''ref/genome.fa'',
          PathExists ''ref/genome.repeats'', ReadChromSizes ''ref/genome.fa'',
          VariantListNew ''in.vcf'' lab_samples None ''ref/genome.repeats'' (Some 0)
            (PyObj ''sizes''),
          WriteOutputTable (PyObj ''variants'') ''out.variants.txt'',
          WriteOutputVcf (PyObj ''variants'') ''out.variants.vcf'']"
  by code_simp




text \<open>
  C4 (as amended). Every run of \<open>call_variants\<close> that completes writes the table to
  \<open><output_header>.variants.txt\<close> and the VCF to \<open><output_header>.variants.vcf\<close>, and
  nothing else of the two kinds. Every run of \<open>run_pipeline\<close> that completes writes the
  table to \<open>output/mutations.txt\<close> and the VCF to \<open>output/mutations.vcf\<close> under the
  experiment directory, and nothing else of the two kinds.
\<close>

theorem output_file_names:
  "(result_of (call_variants env ref c sl vcf hdr chrom excl s) = Inr ()
      \<longrightarrow> (\<exists>variants.
            filter is_variant_write (events_of (call_variants env ref c sl vcf hdr chrom excl s))
              = [WriteOutputTable variants (hdr @ ''.variants.txt''),
                 WriteOutputVcf variants (hdr @ ''.variants.vcf'')]))
   \<and> (result_of (run_pipeline env ref fl c dir p ex s) = Inr ()
      \<longrightarrow> (\<exists>variants.
            filter is_variant_write (events_of (run_pipeline env ref fl c dir p ex s))
              = [WriteOutputTable variants (path_join dir [''output'', ''mutations.txt'']),
                 WriteOutputVcf variants (path_join dir [''output'', ''mutations.vcf''])]))
   \<and> suffix ''output/mutations.txt'' (path_join dir [''output'', ''mutations.txt''])
   \<and> suffix ''output/mutations.vcf'' (path_join dir [''output'', ''mutations.vcf''])"
proof (intro conjI impI)
  assume completed: "result_of (call_variants env ref c sl vcf hdr chrom excl s) = Inr ()"
  obtain r evs s' where run: "call_variants env ref c sl vcf hdr chrom excl s = (r, evs, s')"
    by (rule run_cases)
  with completed have "call_variants env ref c sl vcf hdr chrom excl s = (Inr (), evs, s')"
    by simp
  from call_variants_completed [OF this] obtain ss cs variants where
    "evs = [ReadSamplesFromText sl None, CreateReferenceIndices ref,
            PathExists (repeat_file_name ref), chrom_sizes_source ref chrom,
            VariantListNew vcf ss excl (repeat_file_name ref) (find_control c ss) cs,
            WriteOutputTable variants (hdr @ ''.variants.txt''),
            WriteOutputVcf variants (hdr @ ''.variants.vcf'')]" .
  then have "filter is_variant_write evs
      = [WriteOutputTable variants (hdr @ ''.variants.txt''),
         WriteOutputVcf variants (hdr @ ''.variants.vcf'')]"
    by (simp add: is_variant_write_def chrom_sizes_source_def split: option.splits)
  then show "\<exists>variants.
            filter is_variant_write (events_of (call_variants env ref c sl vcf hdr chrom excl s))
              = [WriteOutputTable variants (hdr @ ''.variants.txt''),
                 WriteOutputVcf variants (hdr @ ''.variants.vcf'')]"
    unfolding run events_of_eq by blast
next
  assume completed: "result_of (run_pipeline env ref fl c dir p ex s) = Inr ()"
  obtain r evs s' where run: "run_pipeline env ref fl c dir p ex s = (r, evs, s')"
    by (rule run_cases)
  with completed have run': "run_pipeline env ref fl c dir p ex s = (Inr (), evs, s')" by simp
  from run_pipeline_completed [OF run'] obtain ss ctrl v cs rf evs1 s1 evs2 where
    char: "characterize env ref fl c dir p s = (Inr (ss, ctrl, v, cs, rf), evs1, s1)" and
    aggr: "aggregate env dir ex (ss, ctrl, v, cs, rf) s1 = (Inr (), evs2, s')" and
    evs: "evs = evs1 @ evs2" by blast
  from aggregate_ok [OF aggr] obtain variants cleared where
    evs2: "evs2 = [VariantListNew v ss ex rf ctrl cs,
            WriteOutputTable variants (path_join dir [''output'', ''mutations.txt'']),
            WriteOutputVcf variants (path_join dir [''output'', ''mutations.vcf''])]
           @ map ClearTempFileIndices ss
           @ [WriteSampleInfoFile cleared (path_join dir [''sample_info.txt''])]"
    by blast
  have "\<not> is_variant_write ev" if "ev \<in> set evs1" for ev
    using emitsD [OF emits_characterize char that] is_variant_write_aggregation by blast
  then have quiet: "filter is_variant_write evs1 = []" by (simp add: filter_empty_conv)
  have "filter is_variant_write (map ClearTempFileIndices ss) = []"
    by (rule filter_none) (auto simp: is_variant_write_def)
  with quiet have "filter is_variant_write evs
      = [WriteOutputTable variants (path_join dir [''output'', ''mutations.txt'']),
         WriteOutputVcf variants (path_join dir [''output'', ''mutations.vcf''])]"
    unfolding evs evs2 by (simp add: is_variant_write_def)
  then show "\<exists>variants.
            filter is_variant_write (events_of (run_pipeline env ref fl c dir p ex s))
              = [WriteOutputTable variants (path_join dir [''output'', ''mutations.txt'']),
                 WriteOutputVcf variants (path_join dir [''output'', ''mutations.vcf''])]"
    unfolding run events_of_eq by blast
next
  show "suffix ''output/mutations.txt'' (path_join dir [''output'', ''mutations.txt''])"
    by (auto simp: suffix_def)
  show "suffix ''output/mutations.vcf'' (path_join dir [''output'', ''mutations.vcf''])"
    by (auto simp: suffix_def)
qed

theorem output_file_names_witness:
  "result_of (call_variants lab ''ref/genome.fa'' ''control'' ''samples.txt'' ''in.vcf'' ''out''
       None None disk_ready) = Inr ()
   \<and> (\<exists>variants.
         filter is_variant_write (events_of (call_variants lab ''ref/genome.fa'' ''control''
             ''samples.txt'' ''in.vcf'' ''out'' None None disk_ready))
           = [WriteOutputTable variants ''out.variants.txt'',
              WriteOutputVcf variants ''out.variants.vcf''])
   \<and> result_of (run_pipeline lab ''ref/genome.fa'' ''fastqs.txt'' ''control'' ''exp'' 2 None
       disk_ready) = Inr ()
   \<and> (\<exists>variants.
         filter is_variant_write (events_of (run_pipeline lab ''ref/genome.fa'' ''fastqs.txt''
             ''control'' ''exp'' 2 None disk_ready))
           = [WriteOutputTable variants ''exp/output/mutations.txt'',
              WriteOutputVcf variants ''exp/output/mutations.vcf''])"
proof -
  have one: "result_of (call_variants lab ''ref/genome.fa'' ''control'' ''samples.txt'' ''in.vcf''
      ''out'' None None disk_ready) = Inr ()" by code_simp
  have two: "result_of (run_pipeline lab ''ref/genome.fa'' ''fastqs.txt'' ''control'' ''exp'' 2 None
       disk_ready) = Inr ()" by code_simp
  note inst = output_file_names [where env = lab and ref = "''ref/genome.fa''"
      and c = "''control''" and sl = "''samples.txt''" and vcf = "''in.vcf''" and hdr = "''out''"
      and chrom = None and excl = None and s = disk_ready and fl = "''fastqs.txt''"
      and dir = "''exp''" and p = 2 and ex = None]
  from inst [THEN conjunct1, rule_format, OF one] have a: "\<exists>variants.
         filter is_variant_write (events_of (call_variants lab ''ref/genome.fa'' ''control''
             ''samples.txt'' ''in.vcf'' ''out'' None None disk_ready))
           = [WriteOutputTable variants ''out.variants.txt'',
              WriteOutputVcf variants ''out.variants.vcf'']" by simp
  from inst [THEN conjunct2, THEN conjunct1, rule_format, OF two] have b: "\<exists>variants.
         filter is_variant_write (events_of (run_pipeline lab ''ref/genome.fa'' ''fastqs.txt''
             ''control'' ''exp'' 2 None disk_ready))
           = [WriteOutputTable variants ''exp/output/mutations.txt'',
              WriteOutputVcf variants ''exp/output/mutations.vcf'']" by simp
  show ?thesis by (intro conjI one a two b)
qed

text \<open>The claim as stated fails for \<open>run_pipeline\<close>: a completed run whose table and
  VCF are not named \<open>*.variants.txt\<close> and \<open>*.variants.vcf\<close>.\<close>

theorem output_file_names_counterexample:
  "result_of (run_pipeline lab ''ref/genome.fa'' ''fastqs.txt'' ''control'' ''exp'' 2 None
       disk_ready) = Inr ()
   \<and> filter is_variant_write (events_of (run_pipeline lab ''ref/genome.fa'' ''fastqs.txt''
         ''control'' ''exp'' 2 None disk_ready))
       = [WriteOutputTable (PyObj ''variants'') ''exp/output/mutations.txt'',
          WriteOutputVcf (PyObj ''variants'') ''exp/output/mutations.vcf'']
   \<and> \<not> suffix ''.variants.txt'' ''exp/output/mutations.txt''
   \<and> \<not> suffix ''.variants.vcf'' ''exp/output/mutations.vcf''"
  by code_simp



text \<open>
  C6. In \<open>run_pipeline\<close> the aggregation (the construction of the variant list and all
  that follows) begins only after the depth task and the repeat indel task of every sample
  have returned, the repeat fits of every sample have been read, and the results are in the
  sample collection the variant list is given: no event of the aggregation comes before.
\<close>

theorem aggregation_after_barrier:
  assumes "VariantListNew v ss x rf ctrl cs
             \<in> set (events_of (run_pipeline env ref fl c dir p ex s))"
  shows "\<exists>before after.
           events_of (run_pipeline env ref fl c dir p ex s)
             = before @ VariantListNew v ss x rf ctrl cs # after
           \<and> filter is_aggregation before = []
           \<and> (\<forall>i < length ss. TaskDone AnalyzeDepth i \<in> set before
                 \<and> TaskDone CharacterizeRepeats i \<in> set before
                 \<and> ReadFits (repeat_indel_fits (ss ! i)) \<in> set before)
           \<and> (\<forall>i < length ss. \<exists>sm files std fits.
                 ss ! i = sm\<lparr>strand_bias_std := std, repeat_indel_fits_dict := fits\<rparr>
                 \<and> (\<exists>s1 s2. answer_files env (GetIntermediateFileNames sm) s1 = (Inr files, s2))
                 \<and> (\<exists>s1 evs1 s2. analyze_depth_distribution env (i, files, ref, cs) s1
                        = (Inr (i, std), evs1, s2))
                 \<and> (\<exists>s1 s2. answer_value env (ReadFits (repeat_indel_fits sm)) s1
                        = (Inr fits, s2)))"
proof -
  obtain r evs s' where run: "run_pipeline env ref fl c dir p ex s = (r, evs, s')"
    by (rule run_cases)
  with assms have mem: "VariantListNew v ss x rf ctrl cs \<in> set evs" by simp
  from variant_list_reached [OF run mem] obtain evs1 s1 rest where
    char: "characterize env ref fl c dir p s = (Inr (ss, ctrl, v, cs, rf), evs1, s1)" and
    evs: "evs = evs1 @ VariantListNew v ss x rf ctrl cs # rest" and
    quiet: "filter is_aggregation evs1 = []" by blast
  from characterize_ok(1) [OF char] have tasks:
    "\<forall>i < length ss. TaskDone AnalyzeDepth i \<in> set evs1
        \<and> TaskDone CharacterizeRepeats i \<in> set evs1
        \<and> ReadFits (repeat_indel_fits (ss ! i)) \<in> set evs1"
    by simp
  note merged = characterize_ok(2) [OF char]
  show ?thesis
    unfolding run events_of_eq
    by (intro exI [of _ evs1] exI [of _ rest] conjI evs quiet tasks merged)
qed

theorem aggregation_after_barrier_witness:
  "VariantListNew ''exp/gatk_output/haplotype_caller_output.vcf'' lab_characterized None
       ''ref/genome.repeats'' (Some 0) (PyObj ''sizes'')
     \<in> set (events_of (run_pipeline lab ''ref/genome.fa'' ''fastqs.txt'' ''control'' ''exp'' 2
                 None disk_ready))
   \<and> (\<exists>before after.
         events_of (run_pipeline lab ''ref/genome.fa'' ''fastqs.txt'' ''control'' ''exp'' 2
                 None disk_ready)
           = before @ VariantListNew ''exp/gatk_output/haplotype_caller_output.vcf''
               lab_characterized None ''ref/genome.repeats'' (Some 0) (PyObj ''sizes'') # after
         \<and> filter is_aggregation before = []
         \<and> TaskDone AnalyzeDepth 0 \<in> set before \<and> TaskDone AnalyzeDepth 1 \<in> set before
         \<and> TaskDone CharacterizeRepeats 0 \<in> set before
         \<and> TaskDone CharacterizeRepeats 1 \<in> set before
         \<and> ReadFits ''control.fits'' \<in> set before \<and> ReadFits ''mutant.fits'' \<in> set before)"
proof -
  have reached: "VariantListNew ''exp/gatk_output/haplotype_caller_output.vcf'' lab_characterized
       None ''ref/genome.repeats'' (Some 0) (PyObj ''sizes'')
     \<in> set (events_of (run_pipeline lab ''ref/genome.fa'' ''fastqs.txt'' ''control'' ''exp'' 2
                 None disk_ready))"
    by code_simp
  have two: "length lab_characterized = 2"
    "repeat_indel_fits (lab_characterized ! 0) = ''control.fits''"
    "repeat_indel_fits (lab_characterized ! 1) = ''mutant.fits''"
    by (simp_all add: lab_characterized_def lab_sample_def)
  from aggregation_after_barrier [OF reached] obtain before after where
    split: "events_of (run_pipeline lab ''ref/genome.fa'' ''fastqs.txt'' ''control'' ''exp'' 2
                 None disk_ready)
           = before @ VariantListNew ''exp/gatk_output/haplotype_caller_output.vcf''
               lab_characterized None ''ref/genome.repeats'' (Some 0) (PyObj ''sizes'') # after" and
    quiet: "filter is_aggregation before = []" and
    tasks: "\<forall>i < length lab_characterized. TaskDone AnalyzeDepth i \<in> set before
                 \<and> TaskDone CharacterizeRepeats i \<in> set before
                 \<and> ReadFits (repeat_indel_fits (lab_characterized ! i)) \<in> set before"
    by blast
  from tasks two have "TaskDone AnalyzeDepth 0 \<in> set before \<and> TaskDone AnalyzeDepth 1 \<in> set before
         \<and> TaskDone CharacterizeRepeats 0 \<in> set before
         \<and> TaskDone CharacterizeRepeats 1 \<in> set before
         \<and> ReadFits ''control.fits'' \<in> set before \<and> ReadFits ''mutant.fits'' \<in> set before"
    by (metis one_less_numeral_iff semiring_norm(76) zero_less_numeral)
  with reached split quiet show ?thesis by blast
qed

text \<open>
  C7. \<open>analyze_depth_distribution\<close> returns the index it was given together with the
  standard deviation that the strand bias fit returned for the files of that task;
  \<open>run_pipeline\<close> assigns each returned value to the sample at the returned index, so the
  result does not depend on the order of the pairs; and every sample the variant list is
  constructed with carries the strand bias value of the depth task run on its own files and
  the repeat indel fits read from its own fits file.
\<close>

theorem strand_bias_assigned_by_index:
  "(\<forall>s r evs s'.
      analyze_depth_distribution env (index, files, ref, cs) s = (Inr r, evs, s')
      \<longrightarrow> fst r = index
          \<and> (\<exists>vs x s1 s2.
                eval_args [item files ''_mpileup_out'', Inr (PyStr ref),
                           item files ''strand_bias_distribution''] = Inr vs
                \<and> answer_pair env (Tool ''bias_dist.calculate_bias_distribution_mpileup'' vs) s1
                    = (Inr (x, snd r), s2)))
   \<and> (\<forall>rs samples samples' i std.
        assign_strand_bias rs samples = Inr samples' \<and> distinct (map fst rs) \<and> (i, std) \<in> set rs
        \<longrightarrow> i < length samples \<and> samples' ! i = (samples ! i)\<lparr>strand_bias_std := std\<rparr>)
   \<and> (\<forall>v ss x rf ctrl sizes.
        VariantListNew v ss x rf ctrl sizes
          \<in> set (events_of (run_pipeline env ref fl c dir p ex s0))
        \<longrightarrow> (\<forall>i < length ss. \<exists>sm files std fits.
                ss ! i = sm\<lparr>strand_bias_std := std, repeat_indel_fits_dict := fits\<rparr>
                \<and> (\<exists>s1 s2. answer_files env (GetIntermediateFileNames sm) s1 = (Inr files, s2))
                \<and> (\<exists>s1 evs1 s2. analyze_depth_distribution env (i, files, ref, sizes) s1
                       = (Inr (i, std), evs1, s2))
                \<and> (\<exists>s1 s2. answer_value env (ReadFits (repeat_indel_fits sm)) s1
                       = (Inr fits, s2))))"
proof (intro conjI allI impI)
  fix s r evs s'
  assume run: "analyze_depth_distribution env (index, files, ref, cs) s = (Inr r, evs, s')"
  then have run': "analyze_depth_distribution env (index, files, ref, cs) s
      = (Inr (fst r, snd r), evs, s')" by simp
  show "fst r = index" by (rule analyze_depth_distribution_ok(1) [OF run'])
  show "\<exists>vs x s1 s2.
          eval_args [item files ''_mpileup_out'', Inr (PyStr ref),
                     item files ''strand_bias_distribution''] = Inr vs
          \<and> answer_pair env (Tool ''bias_dist.calculate_bias_distribution_mpileup'' vs) s1
              = (Inr (x, snd r), s2)"
    by (rule analyze_depth_distribution_ok(2) [OF run'])
next
  fix rs samples samples' i std
  assume a: "assign_strand_bias rs samples = Inr samples' \<and> distinct (map fst rs) \<and> (i, std) \<in> set rs"
  then have assign: "assign_strand_bias rs samples = Inr samples'" and d: "distinct (map fst rs)"
    and mem: "(i, std) \<in> set rs" by simp_all
  show i: "i < length samples" by (rule assign_strand_bias_in_range [OF assign mem])
  from d mem have "map_of rs i = Some std" by (rule map_of_is_SomeI)
  with assign_strand_bias_ok [OF assign d] i
  show "samples' ! i = (samples ! i)\<lparr>strand_bias_std := std\<rparr>" by simp
next
  fix v ss x rf ctrl sizes i
  assume mem: "VariantListNew v ss x rf ctrl sizes
          \<in> set (events_of (run_pipeline env ref fl c dir p ex s0))" and i: "i < length ss"
  obtain r evs s' where run: "run_pipeline env ref fl c dir p ex s0 = (r, evs, s')"
    by (rule run_cases)
  with mem have mem': "VariantListNew v ss x rf ctrl sizes \<in> set evs" by simp
  from variant_list_reached [OF run mem'] obtain evs1 s1 where
    char: "characterize env ref fl c dir p s0 = (Inr (ss, ctrl, v, sizes, rf), evs1, s1)" by blast
  from characterize_ok(2) [OF char] i
  show "\<exists>sm files std fits.
                ss ! i = sm\<lparr>strand_bias_std := std, repeat_indel_fits_dict := fits\<rparr>
                \<and> (\<exists>s1 s2. answer_files env (GetIntermediateFileNames sm) s1 = (Inr files, s2))
                \<and> (\<exists>s1 evs1 s2. analyze_depth_distribution env (i, files, ref, sizes) s1
                       = (Inr (i, std), evs1, s2))
                \<and> (\<exists>s1 s2. answer_value env (ReadFits (repeat_indel_fits sm)) s1
                       = (Inr fits, s2))"
    by blast
qed

theorem strand_bias_assigned_by_index_witness:
  "result_of (analyze_depth_distribution lab
       (1, lab_files (lab_samples ! 1), ''ref/genome.fa'', PyObj ''sizes'') disk_ready)
     = Inr (1, PyFloat 19)
   \<and> assign_strand_bias [(1, PyFloat 19), (0, PyFloat 20)] lab_samples
       = Inr [(lab_samples ! 0)\<lparr>strand_bias_std := PyFloat 20\<rparr>,
              (lab_samples ! 1)\<lparr>strand_bias_std := PyFloat 19\<rparr>]
   \<and> VariantListNew ''exp/gatk_output/haplotype_caller_output.vcf'' lab_characterized None
       ''ref/genome.repeats'' (Some 0) (PyObj ''sizes'')
     \<in> set (events_of (run_pipeline lab ''ref/genome.fa'' ''fastqs.txt'' ''control'' ''exp'' 2
                 None disk_ready))
   \<and> (\<exists>sm files fits.
         lab_characterized ! 0
           = sm\<lparr>strand_bias_std := strand_bias_std (lab_characterized ! 0),
                repeat_indel_fits_dict := fits\<rparr>
         \<and> (\<exists>s1 s2. answer_files lab (GetIntermediateFileNames sm) s1 = (Inr files, s2))
         \<and> (\<exists>s1 evs1 s2. analyze_depth_distribution lab (0, files, ''ref/genome.fa'', PyObj ''sizes'') s1
                = (Inr (0, strand_bias_std (lab_characterized ! 0)), evs1, s2)))"
proof -
  obtain r evs s' where task: "analyze_depth_distribution lab
       (1, lab_files (lab_samples ! 1), ''ref/genome.fa'', PyObj ''sizes'') disk_ready = (r, evs, s')"
    by (rule run_cases)
  have "result_of (analyze_depth_distribution lab
       (1, lab_files (lab_samples ! 1), ''ref/genome.fa'', PyObj ''sizes'') disk_ready)
     = Inr (1, PyFloat 19)" by code_simp
  with task have r: "r = Inr (1, PyFloat 19)" by simp
  have assigned: "assign_strand_bias [(1, PyFloat 19), (0, PyFloat 20)] lab_samples
       = Inr [(lab_samples ! 0)\<lparr>strand_bias_std := PyFloat 20\<rparr>,
              (lab_samples ! 1)\<lparr>strand_bias_std := PyFloat 19\<rparr>]" by code_simp
  have reached: "VariantListNew ''exp/gatk_output/haplotype_caller_output.vcf'' lab_characterized
       None ''ref/genome.repeats'' (Some 0) (PyObj ''sizes'')
     \<in> set (events_of (run_pipeline lab ''ref/genome.fa'' ''fastqs.txt'' ''control'' ''exp'' 2
                 None disk_ready))" by code_simp
  note inst = strand_bias_assigned_by_index [of lab 1 "lab_files (lab_samples ! 1)"
      "''ref/genome.fa''" "PyObj ''sizes''" "''fastqs.txt''" "''control''" "''exp''" 2 None disk_ready]
  from inst task r have returned: "fst (1::nat, PyFloat 19) = 1" by blast
  have "assign_strand_bias [(1, PyFloat 19), (0, PyFloat 20)] lab_samples
       = Inr [(lab_samples ! 0)\<lparr>strand_bias_std := PyFloat 20\<rparr>,
              (lab_samples ! 1)\<lparr>strand_bias_std := PyFloat 19\<rparr>]
     \<and> distinct (map fst [(1::nat, PyFloat 19), (0, PyFloat 20)])
     \<and> (0, PyFloat 20) \<in> set [(1::nat, PyFloat 19), (0, PyFloat 20)]"
    using assigned by simp
  with inst have in_range: "(0::nat) < length lab_samples" by blast
  from inst reached have "\<forall>i < length lab_characterized. \<exists>sm files std fits.
                lab_characterized ! i = sm\<lparr>strand_bias_std := std, repeat_indel_fits_dict := fits\<rparr>
                \<and> (\<exists>s1 s2. answer_files lab (GetIntermediateFileNames sm) s1 = (Inr files, s2))
                \<and> (\<exists>s1 evs1 s2. analyze_depth_distribution lab (i, files, ''ref/genome.fa'', PyObj ''sizes'') s1
                       = (Inr (i, std), evs1, s2))
                \<and> (\<exists>s1 s2. answer_value lab (ReadFits (repeat_indel_fits sm)) s1
                       = (Inr fits, s2))"
    by blast
  moreover have "0 < length lab_characterized" by (simp add: lab_characterized_def)
  ultimately obtain sm files std fits where
    own: "lab_characterized ! 0 = sm\<lparr>strand_bias_std := std, repeat_indel_fits_dict := fits\<rparr>"
      "\<exists>s1 s2. answer_files lab (GetIntermediateFileNames sm) s1 = (Inr files, s2)"
      "\<exists>s1 evs1 s2. analyze_depth_distribution lab (0, files, ''ref/genome.fa'', PyObj ''sizes'') s1
                       = (Inr (0, std), evs1, s2)"
    by blast
  from own(1) have "strand_bias_std (lab_characterized ! 0) = std" by simp
  with own have "\<exists>sm files fits.
         lab_characterized ! 0
           = sm\<lparr>strand_bias_std := strand_bias_std (lab_characterized ! 0),
                repeat_indel_fits_dict := fits\<rparr>
         \<and> (\<exists>s1 s2. answer_files lab (GetIntermediateFileNames sm) s1 = (Inr files, s2))
         \<and> (\<exists>s1 evs1 s2. analyze_depth_distribution lab (0, files, ''ref/genome.fa'', PyObj ''sizes'') s1
                = (Inr (0, strand_bias_std (lab_characterized ! 0)), evs1, s2))"
    by blast
  with task r assigned reached show ?thesis by simp
qed

text \<open>
  C8. In \<open>call_variants\<close> the chromosome size table is optional. When a (non-empty) file
  name is given, the sizes the variant list is constructed with are those read from that
  file, and the reference assembly is not asked; when it is omitted (\<open>None\<close>; the empty
  string counts as omitted, by Python's truth value), they are those derived from the
  reference assembly. Apart from that one call the two paths are the same piece of program:
  when both ways of reading answer alike, the two runs agree on the result, on the state
  of the outside world and on every other event.
\<close>

theorem chrom_sizes_optional:
  "(\<forall>v ss x rf ctrl cs.
      VariantListNew v ss x rf ctrl cs
        \<in> set (events_of (call_variants env ref c sl vcf hdr chrom excl s))
      \<longrightarrow> (\<forall>f. chrom = Some f \<and> f \<noteq> []
               \<longrightarrow> filter is_chrom_read (events_of (call_variants env ref c sl vcf hdr chrom excl s))
                     = [ReadChromSizesFromFile f]
                   \<and> (\<exists>s1 s2. answer_value env (ReadChromSizesFromFile f) s1 = (Inr cs, s2)))
          \<and> (chrom = None \<or> chrom = Some []
               \<longrightarrow> filter is_chrom_read (events_of (call_variants env ref c sl vcf hdr chrom excl s))
                     = [ReadChromSizes ref]
                   \<and> (\<exists>s1 s2. answer_value env (ReadChromSizes ref) s1 = (Inr cs, s2))))
   \<and> (\<forall>f. f \<noteq> []
          \<and> (\<forall>s1. answer_value env (ReadChromSizesFromFile f) s1
                    = answer_value env (ReadChromSizes ref) s1)
        \<longrightarrow> similar (\<lambda>ev. \<not> is_chrom_read ev)
              (call_variants env ref c sl vcf hdr (Some f) excl)
              (call_variants env ref c sl vcf hdr None excl))"
proof (intro conjI allI impI)
  fix v ss x rf ctrl cs f
  assume mem: "VariantListNew v ss x rf ctrl cs
        \<in> set (events_of (call_variants env ref c sl vcf hdr chrom excl s))"
    and f: "chrom = Some f \<and> f \<noteq> []"
  obtain r evs s' where run: "call_variants env ref c sl vcf hdr chrom excl s = (r, evs, s')"
    by (rule run_cases)
  from f have src: "chrom_sizes_source ref chrom = ReadChromSizesFromFile f"
    by (simp add: chrom_sizes_source_def)
  from mem run have mem': "VariantListNew v ss x rf ctrl cs \<in> set evs" by simp
  from call_variants_reached [OF run mem'] src obtain s2 s3 rest where
    "answer_value env (ReadChromSizesFromFile f) s2 = (Inr cs, s3)"
    "evs = [ReadSamplesFromText sl None, CreateReferenceIndices ref,
                    PathExists (repeat_file_name ref), ReadChromSizesFromFile f,
                    VariantListNew vcf ss excl (repeat_file_name ref) (find_control c ss) cs]
                   @ rest"
    "set rest \<subseteq> {ev. is_variant_write ev}"
    by auto
  moreover from this have "filter is_chrom_read rest = []"
    by (auto simp: filter_empty_conv is_variant_write_def is_chrom_read_def split: event.splits)
  ultimately show "filter is_chrom_read (events_of (call_variants env ref c sl vcf hdr chrom excl s))
                     = [ReadChromSizesFromFile f]"
    and "\<exists>s1 s2. answer_value env (ReadChromSizesFromFile f) s1 = (Inr cs, s2)"
    using run by (auto simp: is_chrom_read_def)
next
  fix v ss x rf ctrl cs
  assume mem: "VariantListNew v ss x rf ctrl cs
        \<in> set (events_of (call_variants env ref c sl vcf hdr chrom excl s))"
    and f: "chrom = None \<or> chrom = Some []"
  obtain r evs s' where run: "call_variants env ref c sl vcf hdr chrom excl s = (r, evs, s')"
    by (rule run_cases)
  from f have src: "chrom_sizes_source ref chrom = ReadChromSizes ref"
    by (auto simp: chrom_sizes_source_def)
  from mem run have mem': "VariantListNew v ss x rf ctrl cs \<in> set evs" by simp
  from call_variants_reached [OF run mem'] src obtain s2 s3 rest where
    "answer_value env (ReadChromSizes ref) s2 = (Inr cs, s3)"
    "evs = [ReadSamplesFromText sl None, CreateReferenceIndices ref,
                    PathExists (repeat_file_name ref), ReadChromSizes ref,
                    VariantListNew vcf ss excl (repeat_file_name ref) (find_control c ss) cs]
                   @ rest"
    "set rest \<subseteq> {ev. is_variant_write ev}"
    by auto
  moreover from this have "filter is_chrom_read rest = []"
    by (auto simp: filter_empty_conv is_variant_write_def is_chrom_read_def split: event.splits)
  ultimately show "filter is_chrom_read (events_of (call_variants env ref c sl vcf hdr chrom excl s))
                     = [ReadChromSizes ref]"
    and "\<exists>s1 s2. answer_value env (ReadChromSizes ref) s1 = (Inr cs, s2)"
    using run by (auto simp: is_chrom_read_def)
next
  fix f
  assume a: "f \<noteq> [] \<and> (\<forall>s1. answer_value env (ReadChromSizesFromFile f) s1
                    = answer_value env (ReadChromSizes ref) s1)"
  then have step: "similar (\<lambda>ev. \<not> is_chrom_read ev)
      (call (answer_value env) (ReadChromSizesFromFile f))
      (call (answer_value env) (ReadChromSizes ref))"
    by (intro similar_call) (simp_all add: is_chrom_read_def)
  from a show "similar (\<lambda>ev. \<not> is_chrom_read ev)
              (call_variants env ref c sl vcf hdr (Some f) excl)
              (call_variants env ref c sl vcf hdr None excl)"
    unfolding call_variants_def Let_def
    by (intro similar_bind similar_refl) (simp add: step)
qed

theorem chrom_sizes_optional_witness:
  "VariantListNew ''in.vcf'' lab_samples None ''ref/genome.repeats'' (Some 0) (PyObj ''sizes'')
     \<in> set (events_of (call_variants lab ''ref/genome.fa'' ''control'' ''samples.txt'' ''in.vcf''
                 ''out'' (Some ''sizes.txt'') None disk_ready))
   \<and> filter is_chrom_read (events_of (call_variants lab ''ref/genome.fa'' ''control''
         ''samples.txt'' ''in.vcf'' ''out'' (Some ''sizes.txt'') None disk_ready))
       = [ReadChromSizesFromFile ''sizes.txt'']
   \<and> VariantListNew ''in.vcf'' lab_samples None ''ref/genome.repeats'' (Some 0) (PyObj ''sizes'')
     \<in> set (events_of (call_variants lab ''ref/genome.fa'' ''control'' ''samples.txt'' ''in.vcf''
                 ''out'' None None disk_ready))
   \<and> filter is_chrom_read (events_of (call_variants lab ''ref/genome.fa'' ''control''
         ''samples.txt'' ''in.vcf'' ''out'' None None disk_ready))
       = [ReadChromSizes ''ref/genome.fa'']
   \<and> similar (\<lambda>ev. \<not> is_chrom_read ev)
       (call_variants lab ''ref/genome.fa'' ''control'' ''samples.txt'' ''in.vcf'' ''out''
          (Some ''sizes.txt'') None)
       (call_variants lab ''ref/genome.fa'' ''control'' ''samples.txt'' ''in.vcf'' ''out''
          None None)"
proof -
  have with_file: "VariantListNew ''in.vcf'' lab_samples None ''ref/genome.repeats'' (Some 0)
       (PyObj ''sizes'')
     \<in> set (events_of (call_variants lab ''ref/genome.fa'' ''control'' ''samples.txt'' ''in.vcf''
                 ''out'' (Some ''sizes.txt'') None disk_ready))"
    by code_simp
  have without: "VariantListNew ''in.vcf'' lab_samples None ''ref/genome.repeats'' (Some 0)
       (PyObj ''sizes'')
     \<in> set (events_of (call_variants lab ''ref/genome.fa'' ''control'' ''samples.txt'' ''in.vcf''
                 ''out'' None None disk_ready))"
    by code_simp
  have alike: "\<forall>s1. answer_value lab (ReadChromSizesFromFile ''sizes.txt'') s1
                   = answer_value lab (ReadChromSizes ''ref/genome.fa'') s1"
    by (simp add: lab_def)
  note given = chrom_sizes_optional [of lab "''ref/genome.fa''" "''control''" "''samples.txt''"
      "''in.vcf''" "''out''" "Some ''sizes.txt''" None disk_ready]
  note omitted = chrom_sizes_optional [of lab "''ref/genome.fa''" "''control''" "''samples.txt''"
      "''in.vcf''" "''out''" None None disk_ready]
  from given with_file have a: "filter is_chrom_read (events_of (call_variants lab ''ref/genome.fa''
         ''control'' ''samples.txt'' ''in.vcf'' ''out'' (Some ''sizes.txt'') None disk_ready))
       = [ReadChromSizesFromFile ''sizes.txt'']"
    by blast
  from omitted without have b: "filter is_chrom_read (events_of (call_variants lab ''ref/genome.fa''
         ''control'' ''samples.txt'' ''in.vcf'' ''out'' None None disk_ready))
       = [ReadChromSizes ''ref/genome.fa'']"
    by blast
  from given alike have c: "similar (\<lambda>ev. \<not> is_chrom_read ev)
       (call_variants lab ''ref/genome.fa'' ''control'' ''samples.txt'' ''in.vcf'' ''out''
          (Some ''sizes.txt'') None)
       (call_variants lab ''ref/genome.fa'' ''control'' ''samples.txt'' ''in.vcf'' ''out''
          None None)"
    by blast
  from with_file without a b c show ?thesis by blast
qed



text \<open>
  C10. The body of the alignment loop aligns a group of one file single-end (no mate) and a
  group of two files as a read pair (the second file is the mate), each at the SAM file of
  its position. In every run of \<open>run_pipeline\<close> that completes, the alignments are, sample
  after sample and group after group, exactly one alignment for each FASTQ group, the one
  \<open>alignment_of\<close> calls for.
\<close>

theorem fastq_groups_aligned_once:
  "(\<forall>i f s. i < length (sams sample)
      \<longrightarrow> align_fastqs env ref p sample (i, [f]) s
          = call (answer_unit env) (Bowtie2Align f ref (sams sample ! i) None p) s)
   \<and> (\<forall>i f1 f2 s. i < length (sams sample)
      \<longrightarrow> align_fastqs env ref p sample (i, [f1, f2]) s
          = call (answer_unit env) (Bowtie2Align f1 ref (sams sample ! i) (Some f2) p) s)
   \<and> (result_of (run_pipeline env ref fl c dir p ex s0) = Inr ()
      \<longrightarrow> (\<exists>v ss x rf ctrl cs.
            VariantListNew v ss x rf ctrl cs
              \<in> set (events_of (run_pipeline env ref fl c dir p ex s0))
            \<and> map Some (filter is_align (events_of (run_pipeline env ref fl c dir p ex s0)))
                = concat (map (\<lambda>sample. map (alignment_of ref p (sams sample))
                                 (enumerate 0 (fastqs sample))) ss)))"
proof (intro conjI allI impI)
  fix i f s
  assume "i < length (sams sample)"
  then show "align_fastqs env ref p sample (i, [f]) s
          = call (answer_unit env) (Bowtie2Align f ref (sams sample ! i) None p) s"
    by (simp add: align_fastqs_def io_bind_def io_lift_def call_def split: prod.splits)
next
  fix i f1 f2 s
  assume "i < length (sams sample)"
  then show "align_fastqs env ref p sample (i, [f1, f2]) s
          = call (answer_unit env) (Bowtie2Align f1 ref (sams sample ! i) (Some f2) p) s"
    by (simp add: align_fastqs_def io_bind_def io_lift_def call_def split: prod.splits)
next
  assume completed: "result_of (run_pipeline env ref fl c dir p ex s0) = Inr ()"
  obtain r evs s' where run: "run_pipeline env ref fl c dir p ex s0 = (r, evs, s')"
    by (rule run_cases)
  with completed have run': "run_pipeline env ref fl c dir p ex s0 = (Inr (), evs, s')" by simp
  from run_pipeline_completed [OF run'] obtain ss ctrl vcf cs rf evs1 s1 evs2 where
    char: "characterize env ref fl c dir p s0 = (Inr (ss, ctrl, vcf, cs, rf), evs1, s1)" and
    aggr: "aggregate env dir ex (ss, ctrl, vcf, cs, rf) s1 = (Inr (), evs2, s')" and
    evs: "evs = evs1 @ evs2" by blast
  from aggregate_ok [OF aggr] obtain variants cleared where
    evs2: "evs2 = [VariantListNew vcf ss ex rf ctrl cs,
            WriteOutputTable variants (path_join dir [''output'', ''mutations.txt'']),
            WriteOutputVcf variants (path_join dir [''output'', ''mutations.vcf''])]
           @ map ClearTempFileIndices ss
           @ [WriteSampleInfoFile cleared (path_join dir [''sample_info.txt''])]"
    by blast
  have "filter is_align (map ClearTempFileIndices ss) = []"
    by (rule filter_none) (auto simp: is_align_def)
  then have "filter is_align evs2 = []" unfolding evs2 by (simp add: is_align_def)
  with evs characterize_ok(3) [OF char]
  have "map Some (filter is_align evs)
      = concat (map (\<lambda>sample. map (alignment_of ref p (sams sample))
                       (enumerate 0 (fastqs sample))) ss)" by simp
  moreover have "VariantListNew vcf ss ex rf ctrl cs \<in> set evs" unfolding evs evs2 by simp
  ultimately show "\<exists>v ss x rf ctrl cs.
            VariantListNew v ss x rf ctrl cs
              \<in> set (events_of (run_pipeline env ref fl c dir p ex s0))
            \<and> map Some (filter is_align (events_of (run_pipeline env ref fl c dir p ex s0)))
                = concat (map (\<lambda>sample. map (alignment_of ref p (sams sample))
                                 (enumerate 0 (fastqs sample))) ss)"
    unfolding run events_of_eq by blast
qed

theorem fastq_groups_aligned_once_witness:
  "result_of (run_pipeline lab ''ref/genome.fa'' ''fastqs.txt'' ''control'' ''exp'' 2 None
       disk_ready) = Inr ()
   \<and> filter is_align (events_of (run_pipeline lab ''ref/genome.fa'' ''fastqs.txt'' ''control''
         ''exp'' 2 None disk_ready))
       = [Bowtie2Align ''control_1.fq'' ''ref/genome.fa'' ''control.sam'' (Some ''control_2.fq'') 2,
          Bowtie2Align ''mutant.fq'' ''ref/genome.fa'' ''mutant.sam'' None 2]
   \<and> (\<exists>v ss x rf ctrl cs.
         VariantListNew v ss x rf ctrl cs
           \<in> set (events_of (run_pipeline lab ''ref/genome.fa'' ''fastqs.txt'' ''control'' ''exp''
                       2 None disk_ready))
         \<and> map Some (filter is_align (events_of (run_pipeline lab ''ref/genome.fa''
                 ''fastqs.txt'' ''control'' ''exp'' 2 None disk_ready)))
             = concat (map (\<lambda>sample. map (alignment_of ''ref/genome.fa'' 2 (sams sample))
                              (enumerate 0 (fastqs sample))) ss))
   \<and> align_fastqs lab ''ref/genome.fa'' 2 (lab_characterized ! 1) (0, [''mutant.fq'']) disk_ready
       = call (answer_unit lab) (Bowtie2Align ''mutant.fq'' ''ref/genome.fa'' ''mutant.sam'' None 2)
           disk_ready
   \<and> align_fastqs lab ''ref/genome.fa'' 2 (lab_characterized ! 0)
         (0, [''control_1.fq'', ''control_2.fq'']) disk_ready
       = call (answer_unit lab)
           (Bowtie2Align ''control_1.fq'' ''ref/genome.fa'' ''control.sam'' (Some ''control_2.fq'') 2)
           disk_ready"
proof -
  have completed: "result_of (run_pipeline lab ''ref/genome.fa'' ''fastqs.txt'' ''control'' ''exp''
      2 None disk_ready) = Inr ()" by code_simp
  have alignments: "filter is_align (events_of (run_pipeline lab ''ref/genome.fa'' ''fastqs.txt''
         ''control'' ''exp'' 2 None disk_ready))
       = [Bowtie2Align ''control_1.fq'' ''ref/genome.fa'' ''control.sam'' (Some ''control_2.fq'') 2,
          Bowtie2Align ''mutant.fq'' ''ref/genome.fa'' ''mutant.sam'' None 2]" by code_simp
  have names: "sams (lab_characterized ! 1) = [''mutant.sam'']"
    "sams (lab_characterized ! 0) = [''control.sam'']"
    by (simp_all add: lab_characterized_def lab_sample_def)
  note single = fastq_groups_aligned_once [where sample = "lab_characterized ! 1" and env = lab
      and ref = "''ref/genome.fa''" and p = 2 and fl = "''fastqs.txt''" and c = "''control''"
      and dir = "''exp''" and ex = None and ?s0.0 = disk_ready]
  note paired = fastq_groups_aligned_once [where sample = "lab_characterized ! 0" and env = lab
      and ref = "''ref/genome.fa''" and p = 2 and fl = "''fastqs.txt''" and c = "''control''"
      and dir = "''exp''" and ex = None and ?s0.0 = disk_ready]
  have a: "align_fastqs lab ''ref/genome.fa'' 2 (lab_characterized ! 1)
         (0, [''mutant.fq'']) disk_ready
       = call (answer_unit lab) (Bowtie2Align ''mutant.fq'' ''ref/genome.fa'' ''mutant.sam'' None 2)
           disk_ready"
    using single [THEN conjunct1, rule_format, of 0 "''mutant.fq''" disk_ready] names by simp
  have b: "align_fastqs lab ''ref/genome.fa'' 2 (lab_characterized ! 0)
         (0, [''control_1.fq'', ''control_2.fq'']) disk_ready
       = call (answer_unit lab)
           (Bowtie2Align ''control_1.fq'' ''ref/genome.fa'' ''control.sam'' (Some ''control_2.fq'') 2)
           disk_ready"
    using paired [THEN conjunct2, THEN conjunct1, rule_format,
        of 0 "''control_1.fq''" "''control_2.fq''" disk_ready] names by simp
  note c = single [THEN conjunct2, THEN conjunct2, rule_format, OF completed]
  show ?thesis by (intro conjI completed alignments a b c)
qed

end
